theory Spec2Isabelle
  imports Complex_Main "HOL-Library.AList" "HOL-Library.Product_Lexorder"
    "HOL-Library.Log_Nat"
begin

section \<open>Draw records\<close>

text \<open>
  \<^verbatim>\<open>data/models.py\<close>, class \<^verbatim>\<open>DoubleBallRecord\<close>: the fields the statistical core
  reads. Python integers are unbounded, hence \<open>int\<close>; the issue is a string.
\<close>

record DoubleBallRecord =
  issue :: string
  red1 :: int
  red2 :: int
  red3 :: int
  red4 :: int
  red5 :: int
  red6 :: int
  blue :: int

text \<open>
  The list \<^verbatim>\<open>[record.red1, ..., record.red6]\<close> that every analyzer builds from a record.
\<close>

definition reds :: "DoubleBallRecord \<Rightarrow> int list" where
  "reds r = [red1 r, red2 r, red3 r, red4 r, red5 r, red6 r]"

section \<open>Window policy (utils/window_config.py)\<close>

text \<open>
  The class attribute \<^verbatim>\<open>_WINDOW_CONFIG\<close> is a dictionary from window names to an optional
  size (\<open>None\<close> is the all-history sentinel). It is kept as an association list in
  insertion order.
\<close>

type_synonym window_table = "(string \<times> int option) list"

definition WINDOW_CONFIG :: window_table where
  "WINDOW_CONFIG =
     [(''short_term'', Some 30), (''medium_term'', Some 50),
      (''long_term'', Some 100), (''all_history'', None)]"

text \<open>
  \<^verbatim>\<open>get_window_by_name\<close> is \<^verbatim>\<open>cls._WINDOW_CONFIG.get(name)\<close>: a missing name and the
  all-history sentinel both read as \<open>None\<close>.
\<close>

definition get_window_by_name :: "window_table \<Rightarrow> string \<Rightarrow> int option" where
  "get_window_by_name cfg name =
     (case map_of cfg name of None \<Rightarrow> None | Some v \<Rightarrow> v)"

text \<open>
  \<^verbatim>\<open>set_window_config\<close> overwrites the three finite windows that the argument mentions.
\<close>

definition set_window_config :: "window_table \<Rightarrow> window_table \<Rightarrow> window_table" where
  "set_window_config cfg config =
     (let c1 = (case map_of config ''short_term'' of
                  None \<Rightarrow> cfg | Some v \<Rightarrow> AList.update ''short_term'' v cfg);
          c2 = (case map_of config ''medium_term'' of
                  None \<Rightarrow> c1 | Some v \<Rightarrow> AList.update ''medium_term'' v c1);
          c3 = (case map_of config ''long_term'' of
                  None \<Rightarrow> c2 | Some v \<Rightarrow> AList.update ''long_term'' v c2)
      in c3)"

text \<open>
  \<^verbatim>\<open>config.py\<close>, dataclass \<^verbatim>\<open>AnalysisConfig\<close>: the three window fields with their
  default factories.
\<close>

record AnalysisConfig =
  SHORT_TERM_WINDOW :: int
  MEDIUM_TERM_WINDOW :: int
  LONG_TERM_WINDOW :: int

definition default_AnalysisConfig :: AnalysisConfig where
  "default_AnalysisConfig =
     \<lparr>SHORT_TERM_WINDOW = 30, MEDIUM_TERM_WINDOW = 50, LONG_TERM_WINDOW = 100\<rparr>"

text \<open>
  \<^verbatim>\<open>update_from_config\<close>: when the configuration object has an \<^verbatim>\<open>analysis\<close> attribute
  (here \<open>Some a\<close>) its three fields replace the table's; otherwise nothing changes.
\<close>

definition update_from_config :: "window_table \<Rightarrow> AnalysisConfig option \<Rightarrow> window_table" where
  "update_from_config cfg config_object =
     (case config_object of
        None \<Rightarrow> cfg
      | Some a \<Rightarrow>
          set_window_config cfg
            [(''short_term'', Some (SHORT_TERM_WINDOW a)),
             (''medium_term'', Some (MEDIUM_TERM_WINDOW a)),
             (''long_term'', Some (LONG_TERM_WINDOW a))])"

text \<open>
  The module body of \<^verbatim>\<open>utils/window_config.py\<close>: on import the table is synchronised with
  the system configuration when the \<^verbatim>\<open>config\<close> module can be imported (\<open>Some a\<close> is its
  \<^verbatim>\<open>analysis\<close> section), and left at its class defaults on \<^verbatim>\<open>ImportError\<close> (\<open>None\<close>).
\<close>

definition window_config_at_import :: "AnalysisConfig option \<Rightarrow> window_table" where
  "window_config_at_import cfg_module =
     (case cfg_module of
        None \<Rightarrow> WINDOW_CONFIG
      | Some a \<Rightarrow> update_from_config WINDOW_CONFIG (Some a))"

section \<open>Storage collaborator (data/database.py)\<close>

text \<open>
  SQLite's \<^verbatim>\<open>CAST(issue AS INTEGER)\<close> on a text value: leading white space is passed
  over, an optional sign is read, then the longest run of decimal digits (no digit gives
  zero), and a value outside the range of 64-bit integers is replaced by the nearest
  bound of that range.
\<close>

definition is_space :: "char \<Rightarrow> bool" where
  "is_space c = ((of_char c :: nat) = 32 \<or> (9 \<le> (of_char c :: nat) \<and> (of_char c :: nat) \<le> 13))"

definition digit_val :: "char \<Rightarrow> int" where
  "digit_val c = int (of_char c) - 48"

definition is_digit :: "char \<Rightarrow> bool" where
  "is_digit c = (48 \<le> (of_char c :: nat) \<and> (of_char c :: nat) \<le> 57)"

definition digits_value :: "string \<Rightarrow> int" where
  "digits_value s = fold (\<lambda>c acc. 10 * acc + digit_val c) (takeWhile is_digit s) 0"

definition cast_integer :: "string \<Rightarrow> int" where
  "cast_integer s =
     (let t = dropWhile is_space s;
          v = (case t of
                 [] \<Rightarrow> 0
               | c # r \<Rightarrow>
                   if c = CHR ''-'' then - digits_value r
                   else if c = CHR ''+'' then digits_value r
                   else digits_value t)
      in max (- (2 ^ 63)) (min (2 ^ 63 - 1) v))"

text \<open>
  \<^verbatim>\<open>get_all_records(limit, order_by)\<close> with its default ordering
  \<^verbatim>\<open>CAST(issue AS INTEGER) DESC\<close>: the rows of the table, newest issue first, cut to
  \<open>limit\<close> rows when a positive limit is given. The table is the list of its rows. Rows
  whose issues cast to the same integer come in an order that SQL leaves open; the list
  keeps them in the order of the table.
\<close>

definition get_all_records :: "DoubleBallRecord list \<Rightarrow> int option \<Rightarrow> DoubleBallRecord list" where
  "get_all_records table limit =
     (let rows = sort_key (\<lambda>r. - cast_integer (issue r)) table
      in case limit of
           None \<Rightarrow> rows
         | Some l \<Rightarrow> if l > 0 then take (nat l) rows else rows)"

definition get_recent_records :: "DoubleBallRecord list \<Rightarrow> int \<Rightarrow> DoubleBallRecord list" where
  "get_recent_records table limit =
     (if limit \<le> 0 then [] else get_all_records table (Some limit))"

section \<open>Floating-point numbers\<close>

text \<open>
  Python floats are IEEE 754 binary64 numbers. A float is kept as the rational number it
  denotes, and an operation on floats (the true division of two integers, the sum and the
  difference of two floats, a decimal literal) yields the exact result rounded to the
  nearest binary64 number, a tie going to the even significand. \<open>pow2 e\<close> is the power
  of two with exponent \<open>e\<close>; \<open>float_exponent a\<close>, for a positive \<open>a\<close>, is the
  exponent \<open>e\<close> with \<open>pow2 e \<le> a < pow2 (e + 1)\<close>; a number has 53 significant bits,
  and below \<open>pow2 (- 1022)\<close> the fixed spacing of the subnormal numbers applies. Results
  beyond the largest float are not modelled.
\<close>

definition pow2 :: "int \<Rightarrow> rat" where
  "pow2 e = (if 0 \<le> e then 2 ^ nat e else 1 / 2 ^ nat (- e))"

definition round_half_even :: "rat \<Rightarrow> int" where
  "round_half_even y =
     (let f = \<lfloor>y\<rfloor>; r = y - of_int f
      in if r < 1 / 2 then f
         else if 1 / 2 < r then f + 1
         else if even f then f else f + 1)"

definition float_exponent :: "rat \<Rightarrow> int" where
  "float_exponent a =
     (let (n, d) = quotient_of a; e0 = bitlen n - bitlen d
      in if a < pow2 e0 then e0 - 1 else e0)"

definition round_float :: "rat \<Rightarrow> rat" where
  "round_float x =
     (if x = 0 then 0
      else
        let a = \<bar>x\<bar>;
            e = max (float_exponent a) (- 1022);
            ulp = pow2 (e - 52)
        in sgn x * of_int (round_half_even (a / ulp)) * ulp)"

text \<open>
  \<^verbatim>\<open>sum(values)\<close> over floats: the items are added one after the other, each sum
  rounded.
\<close>

definition float_sum :: "rat list \<Rightarrow> rat" where
  "float_sum xs = fold (\<lambda>x s. round_float (s + x)) xs 0"

section \<open>Hot/cold analyzer (analysis/hot_cold_analyzer.py)\<close>

subsection \<open>Frequency counting\<close>

text \<open>
  A \<^verbatim>\<open>Counter\<close> is a dictionary; it is kept as an association list in insertion order,
  which is the order \<^verbatim>\<open>items()\<close> yields. \<^verbatim>\<open>red_counts[ball] += 1\<close> updates an existing
  key in place and appends a new key at the end.
\<close>

type_synonym counter = "(int \<times> nat) list"

definition counter_incr :: "counter \<Rightarrow> int \<Rightarrow> counter" where
  "counter_incr c ball =
     AList.update ball (case map_of c ball of None \<Rightarrow> 1 | Some n \<Rightarrow> Suc n) c"

text \<open>
  Reading a \<^verbatim>\<open>Counter\<close> at a key, \<^verbatim>\<open>red_counts[ball]\<close>: a missing key reads as zero.
\<close>

definition counter_get :: "counter \<Rightarrow> int \<Rightarrow> nat" where
  "counter_get c b = (case map_of c b of None \<Rightarrow> 0 | Some n \<Rightarrow> n)"

text \<open>
  \<^verbatim>\<open>_count_red_balls\<close> (the same loops stand inline in \<^verbatim>\<open>analyze\<close>): count every red
  ball of every record, then give each ball of \<^verbatim>\<open>range(1, 34)\<close> that is still missing
  the count zero.
\<close>

definition count_red_balls :: "DoubleBallRecord list \<Rightarrow> counter" where
  "count_red_balls records =
     (let red_counts =
            fold (\<lambda>record c. fold (\<lambda>ball c'. counter_incr c' ball) (reds record) c) records []
      in fold (\<lambda>ball c. if map_of c ball = None then AList.update ball 0 c else c)
           [1..33] red_counts)"

subsection \<open>Ranking and tiers\<close>

text \<open>
  \<^verbatim>\<open>sorted(red_counts.items(), key=lambda x: (-x[1], x[0]))\<close>: Python compares the key
  tuples lexicographically and its sort is stable, as \<open>sort_key\<close> is.
\<close>

definition sorted_items :: "counter \<Rightarrow> (int \<times> nat) list" where
  "sorted_items red_counts = sort_key (\<lambda>x. (- int (snd x), fst x)) red_counts"

text \<open>The slice \<^verbatim>\<open>xs[a:b]\<close> for literal bounds \<open>0 \<le> a \<le> b\<close>.\<close>

definition slice :: "nat \<Rightarrow> nat \<Rightarrow> 'a list \<Rightarrow> 'a list" where
  "slice a b xs = take (b - a) (drop a xs)"

text \<open>The three status strings of the source (hot, warm, cold).\<close>

datatype heat = Hot | Warm | Cold

record heat_sets =
  hot :: "int list"
  warm :: "int list"
  cold :: "int list"

record hot_cold_result = heat_sets +
  ball_status :: "(int \<times> heat) list"
  total_records :: nat
  red_counts :: counter
  window :: int
  cache_time :: rat

text \<open>\<^verbatim>\<open>_get_empty_result(window)\<close>; \<open>now\<close> is the reading of \<^verbatim>\<open>time.time()\<close>.\<close>

definition get_empty_result :: "int \<Rightarrow> rat \<Rightarrow> hot_cold_result" where
  "get_empty_result w now =
     \<lparr>hot = [], warm = [], cold = [], ball_status = [], total_records = 0,
      red_counts = [], window = w, cache_time = now\<rparr>"

text \<open>
  The body of \<^verbatim>\<open>analyze\<close> after the cache check and the database fetch: the early
  return on an empty (or absent) record list, the counting, the ranking, the three
  slices and the lookup dictionary.
\<close>

definition set_status :: "heat \<Rightarrow> int list \<Rightarrow> (int \<times> heat) list \<Rightarrow> (int \<times> heat) list" where
  "set_status h balls d = fold (\<lambda>ball d'. AList.update ball h d') balls d"

definition analyze_records :: "DoubleBallRecord list \<Rightarrow> int \<Rightarrow> rat \<Rightarrow> hot_cold_result" where
  "analyze_records records w now =
     (if records = [] then get_empty_result w now
      else
        let counts = count_red_balls records;
            items = sorted_items counts;
            h = map fst (slice 0 11 items);
            wm = map fst (slice 11 22 items);
            c = map fst (slice 22 33 items)
        in \<lparr>hot = h, warm = wm, cold = c,
            ball_status = set_status Cold c (set_status Warm wm (set_status Hot h [])),
            total_records = length records,
            red_counts = counts, window = w, cache_time = now\<rparr>)"

subsection \<open>The analyzer object and its cache\<close>

text \<open>
  The fields of \<^verbatim>\<open>HotColdAnalyzer\<close> that \<^verbatim>\<open>analyze\<close> reads or writes. \<open>db\<close> is the
  database handle (\<open>None\<close> when the analyzer was built without one), given by the rows of
  its table. The cache dictionary is keyed by the string \<^verbatim>\<open>window_<n>\<close>, which determines
  and is determined by the integer \<open>n\<close>, so the cache is a map on \<open>n\<close>.
\<close>

record analyzer =
  db :: "DoubleBallRecord list option"
  cached_results :: "int \<rightharpoonup> hot_cold_result"
  cache_ttl :: rat
  short_term_window :: int

text \<open>
  The cache check at the head of \<^verbatim>\<open>analyze\<close>: an entry is served when
  \<^verbatim>\<open>force_refresh\<close> is off, the key is present and the entry is younger than the TTL.
\<close>

definition cache_lookup :: "analyzer \<Rightarrow> int \<Rightarrow> bool \<Rightarrow> rat \<Rightarrow> hot_cold_result option" where
  "cache_lookup self w force_refresh now =
     (if force_refresh then None
      else case cached_results self w of
             None \<Rightarrow> None
           | Some cached_result \<Rightarrow>
               if now - cache_time cached_result < cache_ttl self then Some cached_result
               else None)"

text \<open>
  \<^verbatim>\<open>analyze(records, window, force_refresh)\<close>, returning the result and the analyzer
  after the call. A result computed from a non-empty record list is stored under the
  window's key; the empty result is returned without being stored. The source reads the
  clock at the cache check and again for the result's timestamp; \<open>now\<close> stands for
  both readings.
\<close>

definition analyze ::
  "analyzer \<Rightarrow> DoubleBallRecord list option \<Rightarrow> int option \<Rightarrow> bool \<Rightarrow> rat
     \<Rightarrow> hot_cold_result \<times> analyzer" where
  "analyze self records window_arg force_refresh now =
     (let w = (case window_arg of None \<Rightarrow> short_term_window self | Some n \<Rightarrow> n)
      in case cache_lookup self w force_refresh now of
           Some cached_result \<Rightarrow> (cached_result, self)
         | None \<Rightarrow>
             let recs = (case records of
                           Some rs \<Rightarrow> rs
                         | None \<Rightarrow> (case db self of
                                       Some table \<Rightarrow> get_recent_records table w
                                     | None \<Rightarrow> []))
             in if recs = [] then (get_empty_result w now, self)
                else
                  let result = analyze_records recs w now
                  in (result, self\<lparr>cached_results := (cached_results self)(w \<mapsto> result)\<rparr>))"

text \<open>
  \<^verbatim>\<open>HotColdAnalyzer.__init__\<close>: empty caches, a TTL of 300 seconds, and the short-term
  window read from the window policy (\<open>short\<close>).
\<close>

definition init_analyzer :: "DoubleBallRecord list option \<Rightarrow> int \<Rightarrow> analyzer" where
  "init_analyzer database short =
     \<lparr>db = database, cached_results = Map.empty, cache_ttl = 300, short_term_window = short\<rparr>"

text \<open>
  The table's \<^verbatim>\<open>CHECK (redN BETWEEN 1 AND 33)\<close> constraints of \<^verbatim>\<open>data/database.py\<close>:
  every record that the storage hands out has its six red balls in range.
\<close>

definition reds_in_range :: "DoubleBallRecord \<Rightarrow> bool" where
  "reds_in_range r = list_all (\<lambda>b. 1 \<le> b \<and> b \<le> 33) (reds r)"

subsection \<open>Cross-window consistency\<close>

text \<open>
  \<^verbatim>\<open>all(v[i] <= v[i+1] for i in range(len(v) - 1))\<close> and its mirror image: a relation
  holding between every two neighbours of a list.
\<close>

fun adjacent_all :: "('a \<Rightarrow> 'a \<Rightarrow> bool) \<Rightarrow> 'a list \<Rightarrow> bool" where
  "adjacent_all P (x # y # zs) = (P x y \<and> adjacent_all P (y # zs))"
| "adjacent_all P _ = True"

text \<open>
  The four strings \<^verbatim>\<open>_determine_heat_trend\<close> returns: not enough data, heating up,
  cooling down, fluctuating.
\<close>

datatype heat_trend = Insufficient_heat | Heating | Cooling | Fluctuating

definition heat_map :: "heat \<Rightarrow> int" where
  "heat_map s = (case s of Cold \<Rightarrow> 1 | Warm \<Rightarrow> 2 | Hot \<Rightarrow> 3)"

definition determine_heat_trend :: "heat list \<Rightarrow> heat_trend" where
  "determine_heat_trend statuses =
     (if length statuses < 2 then Insufficient_heat
      else
        let heat_values = map heat_map statuses
        in if adjacent_all (\<le>) heat_values then Heating
           else if adjacent_all (\<ge>) heat_values then Cooling
           else Fluctuating)"

record varying_entry =
  ball :: int
  statuses :: "heat list"
  trend :: heat_trend

text \<open>
  The dictionary \<^verbatim>\<open>consistency\<close> (its key \<^verbatim>\<open>heat_transitions\<close> stays the empty
  dictionary it starts as and is left out). With fewer than two windows the function
  returns a dictionary holding only a message.
\<close>

record consistency =
  consistent_hot :: "int list"
  consistent_warm :: "int list"
  consistent_cold :: "int list"
  varying :: "varying_entry list"

datatype consistency_result = Need_two_windows | Consistency consistency

text \<open>
  The status a window gives a ball: hot if it is in the window's hot list, else warm if
  it is in the warm list, else cold. The window's cold list is not consulted.
\<close>

definition window_status :: "'a heat_sets_scheme \<Rightarrow> int \<Rightarrow> heat" where
  "window_status window_data b =
     (if b \<in> set (hot window_data) then Hot
      else if b \<in> set (warm window_data) then Warm
      else Cold)"

text \<open>
  The dictionary \<^verbatim>\<open>ball_statuses\<close>: it starts with the empty list for each ball of
  \<^verbatim>\<open>range(1, 34)\<close>, and every window appends one status to each ball's list. It is a
  function on balls, read at the keys 1..33 only.
\<close>

definition collect_statuses :: "'a heat_sets_scheme list \<Rightarrow> int \<Rightarrow> heat list" where
  "collect_statuses windows =
     fold (\<lambda>window_data d.
             fold (\<lambda>b d'. d'(b := d' b @ [window_status window_data b])) [1..33] d)
          windows (\<lambda>b. [])"

text \<open>One round of the loop over \<^verbatim>\<open>ball_statuses.items()\<close>.\<close>

definition judge_ball :: "(int \<Rightarrow> heat list) \<Rightarrow> int \<Rightarrow> consistency \<Rightarrow> consistency" where
  "judge_ball ball_statuses b cons =
     (let sts = ball_statuses b
      in if card (set sts) = 1 then
           (case hd sts of
              Hot \<Rightarrow> cons\<lparr>consistent_hot := consistent_hot cons @ [b]\<rparr>
            | Warm \<Rightarrow> cons\<lparr>consistent_warm := consistent_warm cons @ [b]\<rparr>
            | Cold \<Rightarrow> cons\<lparr>consistent_cold := consistent_cold cons @ [b]\<rparr>)
         else cons\<lparr>varying := varying cons @
                  [\<lparr>ball = b, statuses = sts, trend = determine_heat_trend sts\<rparr>]\<rparr>)"

definition sort_if_nonempty :: "int list \<Rightarrow> int list" where
  "sort_if_nonempty xs = (if xs \<noteq> [] then sort xs else xs)"

text \<open>
  \<^verbatim>\<open>_analyze_cross_window_consistency(window_results)\<close>. The argument is a dictionary
  from windows to their data, kept as an association list; only its length and its
  values are used.
\<close>

definition analyze_cross_window_consistency ::
  "(int \<times> 'a heat_sets_scheme) list \<Rightarrow> consistency_result" where
  "analyze_cross_window_consistency window_results =
     (if length window_results < 2 then Need_two_windows
      else
        let ball_statuses = collect_statuses (map snd window_results);
            cons = fold (judge_ball ball_statuses) [1..33]
                     \<lparr>consistent_hot = [], consistent_warm = [], consistent_cold = [], varying = []\<rparr>
        in Consistency
             (cons\<lparr>consistent_hot := sort_if_nonempty (consistent_hot cons),
                   consistent_warm := sort_if_nonempty (consistent_warm cons),
                   consistent_cold := sort_if_nonempty (consistent_cold cons)\<rparr>))"

text \<open>The four verdict groups of a result, one after the other.\<close>

definition verdicts :: "consistency \<Rightarrow> int list" where
  "verdicts cons =
     consistent_hot cons @ consistent_warm cons @ consistent_cold cons @ map ball (varying cons)"

subsection \<open>Per-number trend\<close>

text \<open>
  The strings \<^verbatim>\<open>_determine_ball_trend\<close> returns. The branch for four or more
  percentages uses four of them (increasing, decreasing, stable, oscillating); the branch
  for shorter lists uses two others (rising, falling) besides stable; a list of fewer than
  two gets the string for insufficient data.
\<close>

datatype ball_trend =
  Insufficient_data | Increasing | Decreasing | Stable | Oscillating | Rising | Falling

text \<open>
  \<^verbatim>\<open>_determine_ball_trend(percentages)\<close>. The percentages are floats. The spread
  \<^verbatim>\<open>max(percentages) - min(percentages)\<close> and the differences of the first and the last
  percentage are float subtractions, and \<^verbatim>\<open>0.05\<close> and \<^verbatim>\<open>0.03\<close> are the floats
  nearest to 5/100 and 3/100.
\<close>

definition determine_ball_trend :: "rat list \<Rightarrow> ball_trend" where
  "determine_ball_trend percentages =
     (if length percentages < 2 then Insufficient_data
      else if length percentages \<ge> 4 then
        let is_increasing = adjacent_all (\<le>) percentages;
            is_decreasing = adjacent_all (\<ge>) percentages;
            max_diff = (if percentages \<noteq> []
                        then round_float (Max (set percentages) - Min (set percentages))
                        else 0)
        in if is_increasing \<and> max_diff > round_float (5 / 100) then Increasing
           else if is_decreasing \<and> max_diff > round_float (5 / 100) then Decreasing
           else if max_diff \<le> round_float (3 / 100) then Stable
           else Oscillating
      else
        if hd percentages < last percentages
           \<and> round_float (last percentages - hd percentages) > round_float (5 / 100)
        then Rising
        else if hd percentages > last percentages
           \<and> round_float (hd percentages - last percentages) > round_float (5 / 100)
        then Falling
        else Stable)"

section \<open>Repeat-probability analyzer (analysis/probability_analyzer.py)\<close>

subsection \<open>Window table of the analyzer\<close>

text \<open>
  \<^verbatim>\<open>ProbabilityAnalyzer._get_window_config\<close>. The \<^verbatim>\<open>try\<close> branch runs when
  \<^verbatim>\<open>from config import config\<close> succeeds and reads the shared window manager, whose
  current table is \<open>wcm\<close>; each of the three finite windows is read with the name
  \<^verbatim>\<open>'short_term'\<close>, as the source has it. The \<^verbatim>\<open>except ImportError\<close> branch returns
  the literal defaults.
\<close>

definition get_window_config :: "bool \<Rightarrow> window_table \<Rightarrow> window_table" where
  "get_window_config config_importable wcm =
     (if config_importable then
        [(''short_term'', get_window_by_name wcm ''short_term''),
         (''medium_term'', get_window_by_name wcm ''short_term''),
         (''long_term'', get_window_by_name wcm ''short_term''),
         (''all_history'', None)]
      else
        [(''short_term'', Some 30), (''medium_term'', Some 50),
         (''long_term'', Some 100), (''all_history'', None)])"

subsection \<open>Errors and division\<close>

text \<open>
  The exceptions the analyzer's arithmetic and dictionary reads can raise. A function
  that may raise returns a sum: \<open>Inl\<close> the exception, \<open>Inr\<close> the value.
\<close>

datatype py_error = ZeroDivisionError | KeyError

text \<open>
  Python's true division \<^verbatim>\<open>a / b\<close> of two integers: the quotient rounded to the
  nearest float; division by zero raises.
\<close>

definition py_div :: "rat \<Rightarrow> rat \<Rightarrow> py_error + rat" where
  "py_div a b = (if b = 0 then Inl ZeroDivisionError else Inr (round_float (a / b)))"

text \<open>Sequencing: the first exception raised ends the computation.\<close>

definition bind_err :: "'e + 'a \<Rightarrow> ('a \<Rightarrow> 'e + 'b) \<Rightarrow> 'e + 'b" where
  "bind_err m f = (case m of Inl e \<Rightarrow> Inl e | Inr x \<Rightarrow> f x)"

subsection \<open>Selecting a window's draws\<close>

text \<open>
  The slice \<^verbatim>\<open>xs[start:]\<close>: a negative start counts from the end of the list and is
  clamped at its beginning, a non-negative start is clamped at its end. In particular
  \<^verbatim>\<open>xs[-k:]\<close> keeps the last \<open>k\<close> elements of \<open>xs\<close> when \<open>k\<close> is positive.
\<close>

definition slice_from :: "int \<Rightarrow> 'a list \<Rightarrow> 'a list" where
  "slice_from start xs =
     (let n = int (length xs);
          s = (if start < 0 then max (n + start) 0 else min start n)
      in drop (nat s) xs)"

text \<open>
  The head of \<^verbatim>\<open>_analyze_single_window\<close>: the whole history for the window named
  \<^verbatim>\<open>all_history\<close> or a window without limit, and otherwise the slice
  \<^verbatim>\<open>all_records[-effective_period:]\<close> with
  \<^verbatim>\<open>effective_period = min(period_limit, total_records)\<close>. The parameter
  \<open>num_records\<close> is the source's \<^verbatim>\<open>total_records\<close>.
\<close>

definition window_period_data ::
  "string \<Rightarrow> int option \<Rightarrow> DoubleBallRecord list \<Rightarrow> int \<Rightarrow> DoubleBallRecord list" where
  "window_period_data name limit all_records num_records =
     (case limit of
        None \<Rightarrow> all_records
      | Some n \<Rightarrow>
          if name = ''all_history'' then all_records
          else slice_from (- min n num_records) all_records)"

subsection \<open>Repeat statistics of a window\<close>

text \<open>
  \<^verbatim>\<open>len(set(record_reds) & set(next_reds))\<close> and the 0/1 flag for an equal blue ball.
\<close>

definition repeat_count :: "DoubleBallRecord \<Rightarrow> DoubleBallRecord \<Rightarrow> nat" where
  "repeat_count record next_record = card (set (reds record) \<inter> set (reds next_record))"

definition blue_repeat :: "DoubleBallRecord \<Rightarrow> DoubleBallRecord \<Rightarrow> nat" where
  "blue_repeat record next_record = (if blue record = blue next_record then 1 else 0)"

text \<open>The loop indices \<^verbatim>\<open>range(len(period_data) - 1)\<close>.\<close>

definition pair_indices :: "'a list \<Rightarrow> nat list" where
  "pair_indices period_data = [0..<length period_data - 1]"

text \<open>
  \<^verbatim>\<open>_calculate_current_predictions\<close>: the dictionary it returns, the variables its loop
  updates, one round of the loop (a pair counts when its earlier draw shares a red ball
  with the current record), the division of every counter of a dictionary by the number
  of comparisons, and the function itself.
\<close>

record predictions =
  based_on_comparisons :: nat
  avg_repeat_count :: rat
  red_probabilities :: "(int \<times> rat) list"
  predicted_blue_repeat :: rat

record prediction_acc =
  total_comparisons :: nat
  similar_repeat_counts :: "nat list"
  similar_blue_repeats :: "nat list"
  red_repeat_predictions :: "(int \<times> nat) list"

definition prediction_step ::
  "int list \<Rightarrow> DoubleBallRecord list \<Rightarrow> nat \<Rightarrow> prediction_acc \<Rightarrow> prediction_acc" where
  "prediction_step current_reds period_data i acc =
     (let record = period_data ! i;
          next_record = period_data ! (i + 1)
      in if card (set current_reds \<inter> set (reds record)) > 0 then
           acc\<lparr>total_comparisons := total_comparisons acc + 1,
               similar_repeat_counts :=
                 similar_repeat_counts acc @ [repeat_count record next_record],
               similar_blue_repeats :=
                 similar_blue_repeats acc @ [blue_repeat record next_record],
               red_repeat_predictions :=
                 fold (\<lambda>red d. if red \<in> set (reds record) \<inter> set (reds next_record)
                                 then counter_incr d red else d)
                      current_reds (red_repeat_predictions acc)\<rparr>
         else acc)"

fun div_items :: "(int \<times> nat) list \<Rightarrow> nat \<Rightarrow> py_error + (int \<times> rat) list" where
  "div_items [] n = Inr []"
| "div_items ((red, c) # rest) n =
     bind_err (py_div (of_nat c) (of_nat n))
       (\<lambda>q. bind_err (div_items rest n) (\<lambda>qs. Inr ((red, q) # qs)))"

definition calculate_current_predictions ::
  "DoubleBallRecord \<Rightarrow> DoubleBallRecord list \<Rightarrow> py_error + predictions" where
  "calculate_current_predictions current_record period_data =
     (let current_reds = reds current_record;
          acc = fold (prediction_step current_reds period_data) (pair_indices period_data)
                  \<lparr>total_comparisons = 0, similar_repeat_counts = [], similar_blue_repeats = [],
                   red_repeat_predictions = fold (\<lambda>red d. AList.update red 0 d) current_reds []\<rparr>
      in if total_comparisons acc > 0 then
           bind_err (if similar_repeat_counts acc \<noteq> []
                     then py_div (of_nat (sum_list (similar_repeat_counts acc)))
                            (of_nat (total_comparisons acc))
                     else Inr 0)
             (\<lambda>avg. bind_err (div_items (red_repeat_predictions acc) (total_comparisons acc))
             (\<lambda>probs. bind_err (if similar_blue_repeats acc \<noteq> []
                                 then py_div (of_nat (sum_list (similar_blue_repeats acc)))
                                        (of_nat (total_comparisons acc))
                                 else Inr 0)
             (\<lambda>blue_prob.
                Inr \<lparr>based_on_comparisons = total_comparisons acc, avg_repeat_count = avg,
                     red_probabilities = probs, predicted_blue_repeat = blue_prob\<rparr>)))
         else
           Inr \<lparr>based_on_comparisons = total_comparisons acc, avg_repeat_count = 0,
                red_probabilities = fold (\<lambda>red d. AList.update red 0 d) current_reds [],
                predicted_blue_repeat = 0\<rparr>)"

text \<open>
  The loop \<^verbatim>\<open>for count in range(0, 7)\<close> that fills \<^verbatim>\<open>repeat_prob_distribution\<close>;
  \<^verbatim>\<open>Counter(repeat_counts).get(count, 0)\<close> is the number of occurrences of
  \<open>count\<close> in \<open>repeat_counts\<close>.
\<close>

fun fill_distribution ::
  "nat list \<Rightarrow> int \<Rightarrow> nat list \<Rightarrow> (nat \<times> rat) list \<Rightarrow> py_error + (nat \<times> rat) list" where
  "fill_distribution repeat_counts total_pairs [] d = Inr d"
| "fill_distribution repeat_counts total_pairs (count # rest) d =
     bind_err (py_div (of_nat (count_list repeat_counts count)) (of_int total_pairs))
       (\<lambda>q. fill_distribution repeat_counts total_pairs rest (AList.update count q d))"

text \<open>
  \<^verbatim>\<open>_calculate_window_repeat_stats\<close> and the dictionary it returns (without its constant
  entries and its timestamp). Both divisions stand under \<^verbatim>\<open>if total_pairs > 0\<close>; the
  distribution starts as the empty dictionary and the blue probability as zero. The
  read \<^verbatim>\<open>self.window_config[window_name]\<close> raises on a missing name.
\<close>

record window_stats =
  window_name :: string
  period_limit :: "int option"
  effective_periods :: nat
  total_pairs :: int
  repeat_distribution :: "(nat \<times> rat) list"
  blue_repeat_probability :: rat
  current_predictions :: predictions

definition calculate_window_repeat_stats ::
  "window_table \<Rightarrow> string \<Rightarrow> DoubleBallRecord \<Rightarrow> DoubleBallRecord list
     \<Rightarrow> py_error + window_stats" where
  "calculate_window_repeat_stats window_config name current_record period_data =
     (let repeat_counts =
            map (\<lambda>i. repeat_count (period_data ! i) (period_data ! (i + 1)))
              (pair_indices period_data);
          blue_repeat_counts =
            map (\<lambda>i. blue_repeat (period_data ! i) (period_data ! (i + 1)))
              (pair_indices period_data);
          pairs = int (length period_data) - 1
      in bind_err (if pairs > 0 then fill_distribution repeat_counts pairs [0..<7] []
                   else Inr [])
           (\<lambda>distribution.
            bind_err (if pairs > 0 then py_div (of_nat (sum_list blue_repeat_counts)) (of_int pairs)
                      else Inr 0)
           (\<lambda>blue_probability.
            bind_err (calculate_current_predictions current_record period_data)
           (\<lambda>preds.
            case map_of window_config name of
              None \<Rightarrow> Inl KeyError
            | Some limit \<Rightarrow>
                Inr \<lparr>window_name = name, period_limit = limit,
                     effective_periods = length period_data, total_pairs = pairs,
                     repeat_distribution = distribution,
                     blue_repeat_probability = blue_probability,
                     current_predictions = preds\<rparr>))))"

text \<open>
  \<^verbatim>\<open>_analyze_single_window\<close>: \<open>None\<close> when the window has fewer than two draws.
\<close>

definition analyze_single_window ::
  "window_table \<Rightarrow> string \<Rightarrow> DoubleBallRecord \<Rightarrow> DoubleBallRecord list \<Rightarrow> int
     \<Rightarrow> py_error + window_stats option" where
  "analyze_single_window window_config name current_record all_records num_records =
     (case map_of window_config name of
        None \<Rightarrow> Inl KeyError
      | Some limit \<Rightarrow>
          let period_data = window_period_data name limit all_records num_records
          in if length period_data < 2 then Inr None
             else bind_err
                    (calculate_window_repeat_stats window_config name current_record period_data)
                    (\<lambda>stats. Inr (Some stats)))"

subsection \<open>All windows\<close>

text \<open>
  The loop over \<^verbatim>\<open>window_group\<close> in \<^verbatim>\<open>analyze_current_period_probability\<close>: a name
  that the window table lacks is passed over, a window without result is left out, and
  any other window's result is stored under its name.
\<close>

fun analyze_windows ::
  "window_table \<Rightarrow> DoubleBallRecord \<Rightarrow> DoubleBallRecord list \<Rightarrow> int \<Rightarrow> string list
     \<Rightarrow> (string \<times> window_stats) list \<Rightarrow> py_error + (string \<times> window_stats) list" where
  "analyze_windows window_config current_record all_records num_records [] window_results =
     Inr window_results"
| "analyze_windows window_config current_record all_records num_records (name # rest)
     window_results =
     (if map_of window_config name = None then
        analyze_windows window_config current_record all_records num_records rest window_results
      else
        bind_err (analyze_single_window window_config name current_record all_records num_records)
          (\<lambda>window_result.
             case window_result of
               None \<Rightarrow>
                 analyze_windows window_config current_record all_records num_records rest
                   window_results
             | Some stats \<Rightarrow>
                 analyze_windows window_config current_record all_records num_records rest
                   (AList.update name stats window_results)))"

text \<open>
  \<^verbatim>\<open>analyze_current_period_probability\<close>. Its result is either the empty result, a
  dictionary with the key \<^verbatim>\<open>error\<close>, an empty \<^verbatim>\<open>window_analysis\<close> and, when given,
  the current record's data, or the combined result, of which the entry
  \<^verbatim>\<open>window_analysis\<close> is kept: the other entries are copies of the arguments and
  summaries computed from \<^verbatim>\<open>window_analysis\<close> by comparisons alone.
\<close>

datatype probability_result =
  Empty_result "DoubleBallRecord option"
| Combined "(string \<times> window_stats) list"

definition analyze_current_period_probability ::
  "window_table \<Rightarrow> DoubleBallRecord list \<Rightarrow> DoubleBallRecord option \<Rightarrow> string list option
     \<Rightarrow> py_error + probability_result" where
  "analyze_current_period_probability window_config table current_record window_group =
     (case current_record of
        None \<Rightarrow> Inr (Empty_result None)
      | Some cur \<Rightarrow>
          let all_records = get_all_records table None;
              num_records = int (length all_records)
          in if num_records < 2 then Inr (Empty_result (Some cur))
             else
               let names = (case window_group of
                              None \<Rightarrow> [''short_term'', ''medium_term'', ''long_term'', ''all_history'']
                            | Some g \<Rightarrow> g)
               in bind_err (analyze_windows window_config cur all_records num_records names [])
                    (\<lambda>window_results. Inr (Combined window_results)))"

text \<open>A window is analysed when the table has it and it holds at least two draws.\<close>

definition window_has_data ::
  "window_table \<Rightarrow> DoubleBallRecord list \<Rightarrow> int \<Rightarrow> string \<Rightarrow> bool" where
  "window_has_data window_config all_records num_records name =
     (case map_of window_config name of
        None \<Rightarrow> False
      | Some limit \<Rightarrow> 2 \<le> length (window_period_data name limit all_records num_records))"

section \<open>Example draws\<close>

text \<open>Concrete draws on which the results below are instantiated.\<close>

definition draw_1_to_6 :: DoubleBallRecord where
  "draw_1_to_6 =
     \<lparr>issue = ''2024001'', red1 = 1, red2 = 2, red3 = 3, red4 = 4, red5 = 5, red6 = 6, blue = 7\<rparr>"

definition draw_28_to_33 :: DoubleBallRecord where
  "draw_28_to_33 =
     \<lparr>issue = ''2024002'', red1 = 28, red2 = 29, red3 = 30, red4 = 31, red5 = 32, red6 = 33,
      blue = 7\<rparr>"

text \<open>
  An analyzer whose cache is warm for window 30: a fresh analyzer without database after
  one call of \<^verbatim>\<open>analyze\<close> on a single draw at time 0.
\<close>

definition warm_analyzer :: analyzer where
  "warm_analyzer =
     snd (analyze (init_analyzer None 30) (Some [draw_1_to_6]) (Some 30) False 0)"

text \<open>Two windows for the consistency analysis; the second has no classification.\<close>

definition window_10 :: heat_sets where
  "window_10 = \<lparr>hot = [7, 1], warm = [2, 3], cold = [4]\<rparr>"

definition window_20 :: heat_sets where
  "window_20 = \<lparr>hot = [], warm = [], cold = []\<rparr>"

definition two_windows :: "(int \<times> heat_sets) list" where
  "two_windows = [(10, window_10), (20, window_20)]"

definition draw_4_to_9 :: DoubleBallRecord where
  "draw_4_to_9 =
     \<lparr>issue = ''2024003'', red1 = 4, red2 = 5, red3 = 6, red4 = 7, red5 = 8, red6 = 9, blue = 3\<rparr>"

definition draw_7_to_12 :: DoubleBallRecord where
  "draw_7_to_12 =
     \<lparr>issue = ''2024004'', red1 = 7, red2 = 8, red3 = 9, red4 = 10, red5 = 11, red6 = 12,
      blue = 5\<rparr>"

text \<open>A table of three draws, stored in no particular order, and a table of small windows.\<close>

definition three_draws :: "DoubleBallRecord list" where
  "three_draws = [draw_1_to_6, draw_7_to_12, draw_4_to_9]"

definition small_windows :: window_table where
  "small_windows = [(''short_term'', Some 1), (''medium_term'', Some 2), (''all_history'', None)]"

text \<open>
  A window of seven draws: of its six pairs of neighbours one shares all six red balls, one
  shares three and four share none.
\<close>

definition seven_draws :: "DoubleBallRecord list" where
  "seven_draws =
     [draw_1_to_6, draw_1_to_6, draw_4_to_9, draw_28_to_33, draw_1_to_6, draw_28_to_33,
      draw_1_to_6]"

text \<open>
  Percentages as the trend analysis computes them, counts divided by numbers of draws:
  5/30, 9/50, 21/100 and 26/120, whose exact spread is 5/100; then 0.02, 0.05, 0.02, 0.05;
  and the pair 0.15, 0.2.
\<close>

definition spread_five_percent :: "rat list" where
  "spread_five_percent =
     [round_float (5 / 30), round_float (9 / 50), round_float (21 / 100), round_float (26 / 120)]"

definition spread_three_percent :: "rat list" where
  "spread_three_percent =
     [round_float (2 / 100), round_float (5 / 100), round_float (2 / 100), round_float (5 / 100)]"

definition pair_five_percent :: "rat list" where
  "pair_five_percent = [round_float (15 / 100), round_float (2 / 10)]"

section \<open>Results\<close>

subsection \<open>Rounding to the nearest float\<close>

lemma pow2_powi: "pow2 e = 2 powi e"
  by (simp add: pow2_def power_int_def inverse_eq_divide power_one_over)

lemma pow2_pos: "0 < pow2 e"
  by (simp add: pow2_powi)

lemma pow2_diff: "pow2 (a - b) = pow2 a / pow2 b"
  by (simp add: pow2_powi power_int_diff)

lemma float_exponent_le:
  assumes "0 < a"
  shows "pow2 (float_exponent a) \<le> a"
proof -
  obtain n d where q: "quotient_of a = (n, d)" by (cases "quotient_of a")
  have d: "0 < d" using q by (rule quotient_of_denom_pos)
  have a: "a = of_int n / of_int d" using q by (rule quotient_of_div)
  have n: "0 < n"
    using assms d unfolding a by (simp add: zero_less_divide_iff)
  show ?thesis
  proof (cases "a < pow2 (bitlen n - bitlen d)")
    case False
    then show ?thesis
      by (simp add: float_exponent_def q)
  next
    case True
    have bn: "1 \<le> bitlen n" and bd: "1 \<le> bitlen d"
      using n d bitlen_eq_zero_iff [of n] bitlen_eq_zero_iff [of d] bitlen_nonneg [of n]
        bitlen_nonneg [of d] by linarith+
    have "(2::int) ^ nat (bitlen n - 1) \<le> n"
      using bitlen_bounds [OF n] by simp
    then have "(of_int ((2::int) ^ nat (bitlen n - 1)) :: rat) \<le> of_int n"
      by (simp only: of_int_le_iff)
    then have lo: "pow2 (bitlen n - 1) \<le> of_int n"
      using bn by (simp add: pow2_def)
    have "d < (2::int) ^ nat (bitlen d)"
      using bitlen_bounds [OF d] by simp
    then have "(of_int d :: rat) < of_int ((2::int) ^ nat (bitlen d))"
      by (simp only: of_int_less_iff)
    then have hi: "of_int d \<le> pow2 (bitlen d)"
      using bd by (simp add: pow2_def)
    have "pow2 (bitlen n - bitlen d - 1) = pow2 (bitlen n - 1) / pow2 (bitlen d)"
      using pow2_diff [of "bitlen n - 1" "bitlen d"] by (simp add: algebra_simps)
    also have "\<dots> \<le> of_int n / of_int d"
      using lo hi d pow2_pos [of "bitlen n - 1"] by (intro frac_le) simp_all
    finally have "pow2 (bitlen n - bitlen d - 1) \<le> a"
      by (simp only: a)
    moreover have "float_exponent a = bitlen n - bitlen d - 1"
      using True by (simp add: float_exponent_def q)
    ultimately show ?thesis by simp
  qed
qed

lemma round_half_even_error: "\<bar>of_int (round_half_even y) - y\<bar> \<le> 1 / 2"
proof -
  define r where "r = y - of_int \<lfloor>y\<rfloor>"
  have r: "0 \<le> r" "r < 1"
    unfolding r_def by linarith+
  have y: "y = of_int \<lfloor>y\<rfloor> + r"
    by (simp add: r_def)
  have rhe: "round_half_even y =
      (if r < 1 / 2 then \<lfloor>y\<rfloor>
       else if 1 / 2 < r then \<lfloor>y\<rfloor> + 1
       else if even \<lfloor>y\<rfloor> then \<lfloor>y\<rfloor> else \<lfloor>y\<rfloor> + 1)"
    by (simp only: round_half_even_def Let_def r_def)
  have "(round_half_even y = \<lfloor>y\<rfloor> \<and> r \<le> 1 / 2)
      \<or> (round_half_even y = \<lfloor>y\<rfloor> + 1 \<and> 1 / 2 \<le> r)"
    unfolding rhe by (cases "r < 1 / 2"; cases "1 / 2 < r"; cases "even \<lfloor>y\<rfloor>") simp_all
  then consider "round_half_even y = \<lfloor>y\<rfloor>" "r \<le> 1 / 2"
    | "round_half_even y = \<lfloor>y\<rfloor> + 1" "1 / 2 \<le> r"
    by blast
  then show ?thesis
  proof cases
    case 1
    have "of_int (round_half_even y) - y = - r"
      by (subst (2) y) (simp add: 1)
    with r 1 show ?thesis by simp
  next
    case 2
    have "of_int (round_half_even y) - y = 1 - r"
      by (subst (2) y) (simp add: 2)
    with r 2 show ?thesis by simp
  qed
qed

lemma round_float_error: "\<bar>round_float x - x\<bar> \<le> \<bar>x\<bar> / 2 ^ 53 + 1 / 2 ^ 1075"
proof (cases "x = 0")
  case True
  then show ?thesis by (simp add: round_float_def)
next
  case False
  define a where "a = \<bar>x\<bar>"
  define e where "e = max (float_exponent a) (- 1022)"
  define ulp where "ulp = pow2 (e - 52)"
  define m where "m = round_half_even (a / ulp)"
  have a: "0 < a" using False by (simp add: a_def)
  have ulp: "0 < ulp" by (simp add: ulp_def pow2_pos)
  have rf: "round_float x = sgn x * of_int m * ulp"
    using False by (simp add: round_float_def Let_def a_def e_def ulp_def m_def)
  have x: "x = sgn x * a"
    by (simp add: a_def sgn_mult_abs)
  have "round_float x - x = sgn x * (of_int m * ulp - a)"
    by (subst (2) x) (simp add: rf algebra_simps)
  then have "\<bar>round_float x - x\<bar> = \<bar>of_int m * ulp - a\<bar>"
    using False by (simp add: abs_mult abs_sgn_eq)
  also have "of_int m * ulp - a = ulp * (of_int m - a / ulp)"
    using ulp by (simp add: algebra_simps)
  also have "\<bar>ulp * (of_int m - a / ulp)\<bar> = ulp * \<bar>of_int m - a / ulp\<bar>"
    using ulp by (simp add: abs_mult)
  also have "\<dots> \<le> ulp * (1 / 2)"
    using ulp round_half_even_error [of "a / ulp"]
    by (intro mult_left_mono) (simp_all add: m_def)
  finally have err: "\<bar>round_float x - x\<bar> \<le> ulp / 2" by simp
  have half: "ulp / 2 = pow2 e / 2 ^ 53"
    using pow2_diff [of e 52] by (simp add: ulp_def pow2_def)
  show ?thesis
  proof (cases "- 1022 \<le> float_exponent a")
    case True
    then have "pow2 e \<le> a"
      using float_exponent_le [OF a] by (simp add: e_def max_def)
    then have "ulp / 2 \<le> a / 2 ^ 53"
      unfolding half by (simp add: divide_right_mono)
    with err show ?thesis
      by (simp add: a_def)
  next
    case False
    then have "e = - 1022" by (simp add: e_def max_def)
    then have "ulp / 2 = 1 / 2 ^ 1075"
      unfolding half by (simp add: pow2_def)
    with err have "\<bar>round_float x - x\<bar> \<le> 1 / 2 ^ 1075" by simp
    moreover have "0 \<le> \<bar>x\<bar> / 2 ^ 53" by simp
    ultimately show ?thesis by linarith
  qed
qed

lemma round_float_error_small: "\<bar>round_float x - x\<bar> \<le> \<bar>x\<bar> * (1 / 2 ^ 53) + 1 / 2 ^ 100"
proof -
  have "(1::rat) / 2 ^ 1075 \<le> 1 / 2 ^ 100"
    by (intro divide_left_mono power_increasing) simp_all
  with round_float_error [of x] show ?thesis by simp
qed

lemma sum_list_nonneg_all2:
  "list_all2 (\<lambda>v q. 0 \<le> q \<and> P v q) vs qs \<Longrightarrow> 0 \<le> sum_list (qs :: rat list)"
  by (induction rule: list_all2_induct) simp_all

lemma sum_rounded_error:
  fixes u eta :: rat
  assumes "list_all2 (\<lambda>v q. 0 \<le> q \<and> \<bar>v - q\<bar> \<le> q * u + eta) vs qs"
  shows "\<bar>sum_list vs - sum_list qs\<bar> \<le> sum_list qs * u + of_nat (length vs) * eta"
  using assms
proof (induction rule: list_all2_induct)
  case Nil
  show ?case by simp
next
  case (Cons v vs q qs)
  have "\<bar>(v + sum_list vs) - (q + sum_list qs)\<bar> \<le> \<bar>v - q\<bar> + \<bar>sum_list vs - sum_list qs\<bar>"
    by linarith
  with Cons show ?case
    by (simp add: algebra_simps)
qed

lemma fold_rounded_error:
  fixes u eta :: rat and fl :: "rat \<Rightarrow> rat"
  assumes fl: "\<And>z. \<bar>fl z - z\<bar> \<le> \<bar>z\<bar> * u + eta"
    and u: "0 \<le> u" "u \<le> 1" and eta: "0 \<le> eta" "eta \<le> 1"
    and vs: "list_all2 (\<lambda>v q. 0 \<le> q \<and> \<bar>v - q\<bar> \<le> q * u + eta) vs qs"
    and start: "\<bar>s - S\<bar> \<le> E" "0 \<le> S" "S + sum_list qs \<le> 1"
      "E + of_nat (length vs) * (5 * u + 2 * eta) \<le> 1"
  shows "\<bar>fold (\<lambda>x acc. fl (acc + x)) vs s - (S + sum_list qs)\<bar>
           \<le> E + of_nat (length vs) * (5 * u + 2 * eta)"
  using vs start
proof (induction arbitrary: s S E rule: list_all2_induct)
  case Nil
  then show ?case by simp
next
  case (Cons v vs q qs)
  have rest: "0 \<le> sum_list qs"
    using Cons.hyps(2) by (rule sum_list_nonneg_all2)
  have q: "0 \<le> q" "\<bar>v - q\<bar> \<le> q * u + eta"
    using Cons.hyps(1) by simp_all
  have q1: "q \<le> 1"
    using Cons.prems rest by simp
  have c: "0 \<le> of_nat (length vs) * (5 * u + 2 * eta)"
    using u eta by simp
  have c': "0 \<le> 5 * u + 2 * eta"
    using u eta by simp
  have E0: "0 \<le> E"
    using Cons.prems(1) by linarith
  have "E + (of_nat (length vs) * (5 * u + 2 * eta) + (5 * u + 2 * eta)) \<le> 1"
    using Cons.prems(4) by (simp add: algebra_simps)
  then have E1: "E \<le> 1"
    using c c' by linarith
  note E = E0 E1
  have "q * u \<le> 1 * u"
    using q1 u by (intro mult_right_mono) simp_all
  then have vq: "\<bar>v - q\<bar> \<le> u + eta"
    using q by simp
  have d: "\<bar>(s + v) - (S + q)\<bar> \<le> E + u + eta"
    using Cons.prems(1) vq by linarith
  have "S + q \<le> 1"
    using Cons.prems rest by simp
  then have "\<bar>s + v\<bar> \<le> 4"
    using d Cons.prems(2) q E u eta by linarith
  then have "\<bar>s + v\<bar> * u \<le> 4 * u"
    using u by (intro mult_right_mono) simp_all
  then have "\<bar>fl (s + v) - (s + v)\<bar> \<le> 4 * u + eta"
    using fl [of "s + v"] by linarith
  then have step: "\<bar>fl (s + v) - (S + q)\<bar> \<le> E + (5 * u + 2 * eta)"
    using d by linarith
  have "\<bar>fold (\<lambda>x acc. fl (acc + x)) vs (fl (s + v)) - ((S + q) + sum_list qs)\<bar>
      \<le> (E + (5 * u + 2 * eta)) + of_nat (length vs) * (5 * u + 2 * eta)"
    using step Cons.prems q by (intro Cons.IH) (simp_all add: algebra_simps)
  then show ?case
    by (simp add: algebra_simps)
qed

lemma round_float_zero: "round_float 0 = 0"
  by (simp add: round_float_def)

subsection \<open>Window policy defaults\<close>

lemma window_config_at_import_default:
  "window_config_at_import (Some default_AnalysisConfig) = WINDOW_CONFIG"
  by (simp add: window_config_at_import_def update_from_config_def set_window_config_def
      default_AnalysisConfig_def WINDOW_CONFIG_def)

text \<open>
  Claim C2. With the configuration module of the repository importable and left at its
  defaults, the shared window manager resolves \<open>short_term\<close>, \<open>medium_term\<close> and
  \<open>long_term\<close> to 30, 50 and 100, but the table that the repeat-probability analyzer
  builds from it gives 30 to all three finite windows: its entries for \<open>medium_term\<close>
  and \<open>long_term\<close> are read under the name \<open>short_term\<close>.
\<close>

theorem get_window_config_default_sizes:
  "get_window_by_name (window_config_at_import (Some default_AnalysisConfig)) ''short_term'' = Some 30
   \<and> get_window_by_name (window_config_at_import (Some default_AnalysisConfig)) ''medium_term'' = Some 50
   \<and> get_window_by_name (window_config_at_import (Some default_AnalysisConfig)) ''long_term'' = Some 100
   \<and> map_of (get_window_config True (window_config_at_import (Some default_AnalysisConfig)))
        ''short_term'' = Some (Some 30)
   \<and> map_of (get_window_config True (window_config_at_import (Some default_AnalysisConfig)))
        ''medium_term'' = Some (Some 30)
   \<and> map_of (get_window_config True (window_config_at_import (Some default_AnalysisConfig)))
        ''long_term'' = Some (Some 30)"
  by (simp add: window_config_at_import_default get_window_config_def get_window_by_name_def
      WINDOW_CONFIG_def)

subsection \<open>The frequency table\<close>

lemma counter_incr_keys: "fst ` set (counter_incr c b) = insert b (fst ` set c)"
  by (simp add: counter_incr_def AList.dom_update)

lemma counter_incr_distinct: "distinct (map fst c) \<Longrightarrow> distinct (map fst (counter_incr c b))"
  by (simp add: counter_incr_def AList.distinct_update)

lemma count_balls_keys:
  "fst ` set (fold (\<lambda>ball c'. counter_incr c' ball) bs c) = set bs \<union> fst ` set c"
  by (induction bs arbitrary: c) (simp_all add: counter_incr_keys)

lemma count_balls_distinct:
  "distinct (map fst c) \<Longrightarrow> distinct (map fst (fold (\<lambda>ball c'. counter_incr c' ball) bs c))"
  by (induction bs arbitrary: c) (simp_all add: counter_incr_distinct)

lemma count_records_keys:
  "fst ` set (fold (\<lambda>record c. fold (\<lambda>ball c'. counter_incr c' ball) (reds record) c) rs c)
     = (\<Union>r\<in>set rs. set (reds r)) \<union> fst ` set c"
  by (induction rs arbitrary: c) (simp_all add: count_balls_keys Un_ac)

lemma count_records_distinct:
  "distinct (map fst c) \<Longrightarrow>
   distinct (map fst (fold (\<lambda>record c. fold (\<lambda>ball c'. counter_incr c' ball) (reds record) c) rs c))"
  by (induction rs arbitrary: c) (simp_all add: count_balls_distinct)

lemma fill_step_keys:
  "fst ` set (if map_of c b = None then AList.update b (0::nat) c else c) = insert b (fst ` set c)"
  by (auto simp: AList.dom_update map_of_eq_None_iff)

lemma fill_keys:
  "fst ` set (fold (\<lambda>ball c. if map_of c ball = None then AList.update ball (0::nat) c else c) bs c)
     = set bs \<union> fst ` set c"
proof (induction bs arbitrary: c)
  case Nil
  show ?case by simp
next
  case (Cons b bs)
  show ?case
    unfolding fold_Cons comp_def Cons.IH fill_step_keys by auto
qed

lemma fill_distinct:
  "distinct (map fst c) \<Longrightarrow>
   distinct (map fst (fold (\<lambda>ball c. if map_of c ball = None then AList.update ball (0::nat) c else c) bs c))"
  by (induction bs arbitrary: c) (simp_all add: AList.distinct_update)

lemma count_red_balls_keys:
  "fst ` set (count_red_balls rs) = {1..33} \<union> (\<Union>r\<in>set rs. set (reds r))"
  by (simp add: count_red_balls_def Let_def fill_keys count_records_keys)

lemma count_red_balls_distinct: "distinct (map fst (count_red_balls rs))"
  by (simp add: count_red_balls_def Let_def fill_distinct count_records_distinct)

lemma counter_get_Nil: "counter_get [] x = 0"
  by (simp add: counter_get_def)

lemma counter_get_incr:
  "counter_get (counter_incr c b) x = counter_get c x + (if x = b then 1 else 0)"
  by (simp add: counter_get_def counter_incr_def AList.update_conv' split: option.splits)

lemma counter_get_balls:
  "counter_get (fold (\<lambda>ball c'. counter_incr c' ball) bs c) x = counter_get c x + count_list bs x"
  by (induction bs arbitrary: c) (simp_all add: counter_get_incr)

lemma counter_get_records:
  "counter_get (fold (\<lambda>record c. fold (\<lambda>ball c'. counter_incr c' ball) (reds record) c) rs c) x
     = counter_get c x + count_list (concat (map reds rs)) x"
  by (induction rs arbitrary: c) (simp_all add: counter_get_balls)

lemma counter_get_fill_step:
  "counter_get (if map_of c b = None then AList.update b 0 c else c) x = counter_get c x"
  by (simp add: counter_get_def AList.update_conv' split: option.splits)

lemma counter_get_fill:
  "counter_get (fold (\<lambda>ball c. if map_of c ball = None then AList.update ball 0 c else c) bs c) x
     = counter_get c x"
proof (induction bs arbitrary: c)
  case Nil
  show ?case by simp
next
  case (Cons b bs)
  show ?case
    unfolding fold_Cons comp_def Cons.IH counter_get_fill_step ..
qed

lemma counter_get_count_red_balls:
  "counter_get (count_red_balls rs) x = count_list (concat (map reds rs)) x"
  by (simp add: count_red_balls_def Let_def counter_get_fill counter_get_records counter_get_Nil)

lemma map_of_count_red_balls:
  assumes "x \<in> fst ` set (count_red_balls rs)"
  shows "map_of (count_red_balls rs) x = Some (count_list (concat (map reds rs)) x)"
proof -
  from assms obtain n where n: "map_of (count_red_balls rs) x = Some n"
    by (metis map_of_eq_None_iff not_Some_eq)
  then have "counter_get (count_red_balls rs) x = n"
    by (simp add: counter_get_def)
  with n show ?thesis
    by (simp add: counter_get_count_red_balls)
qed

lemma valid_keys:
  assumes "list_all reds_in_range rs"
  shows "fst ` set (count_red_balls rs) = {1..33}"
  using assms by (auto simp: count_red_balls_keys list_all_iff reds_in_range_def)

lemma valid_length:
  assumes "list_all reds_in_range rs"
  shows "length (count_red_balls rs) = 33"
proof -
  have "length (count_red_balls rs) = length (map fst (count_red_balls rs))" by simp
  also have "\<dots> = card (set (map fst (count_red_balls rs)))"
    using count_red_balls_distinct [of rs] by (simp only: distinct_card)
  also have "\<dots> = card {1..33::int}"
    using valid_keys [OF assms] by simp
  also have "\<dots> = 33" by simp
  finally show ?thesis .
qed

subsection \<open>Ranking and the three tiers\<close>

lemma cache_lookup_fresh: "cache_lookup (init_analyzer d short) w force_refresh now = None"
  by (simp add: cache_lookup_def init_analyzer_def)

lemma cache_lookup_warm:
  "cache_lookup warm_analyzer 30 False 10 = Some (analyze_records [draw_1_to_6] 30 0)"
proof -
  have t: "cache_time (analyze_records [draw_1_to_6] 30 0) = 0"
    by (simp add: analyze_records_def Let_def)
  have w: "warm_analyzer = (init_analyzer None 30)
      \<lparr>cached_results := (cached_results (init_analyzer None 30))
          (30 \<mapsto> analyze_records [draw_1_to_6] 30 0)\<rparr>"
    by (simp add: warm_analyzer_def analyze_def cache_lookup_fresh Let_def)
  show ?thesis
    unfolding cache_lookup_def w by (simp add: t init_analyzer_def)
qed

lemma slice_thirds:
  assumes "length xs = 33"
  shows "slice 0 11 xs @ slice 11 22 xs @ slice 22 33 xs = xs"
proof -
  have "take 11 (drop 11 xs) @ take 11 (drop 22 xs) = take 22 (drop 11 xs)"
    using take_add [of 11 11 "drop 11 xs"] by simp
  moreover have "take 11 xs @ take 22 (drop 11 xs) = take 33 xs"
    using take_add [of 11 22 xs] by simp
  ultimately show ?thesis
    using assms by (simp add: slice_def)
qed

lemma length_slice_thirds:
  assumes "length xs = 33"
  shows "length (slice 0 11 xs) = 11" "length (slice 11 22 xs) = 11" "length (slice 22 33 xs) = 11"
  using assms by (simp_all add: slice_def)

lemma sorted_items_set: "set (sorted_items c) = set c"
  by (simp add: sorted_items_def)

lemma sorted_items_length: "length (sorted_items c) = length c"
  by (simp add: sorted_items_def)

lemma sorted_items_distinct:
  "distinct (map fst c) \<Longrightarrow> distinct (map fst (sorted_items c))"
  by (simp add: sorted_items_def distinct_map)

lemma sorted_items_strict:
  assumes "distinct (map fst c)"
  shows "sorted_wrt (\<lambda>x y. snd x > snd y \<or> (snd x = snd y \<and> fst x < fst y)) (sorted_items c)"
proof -
  let ?f = "\<lambda>x::int \<times> nat. (- int (snd x), fst x)"
  have inj: "inj_on ?f (set c)"
    using assms by (auto simp: inj_on_def dest: eq_key_imp_eq_value)
  have "distinct c"
    using assms by (rule distinct_map [THEN iffD1, THEN conjunct1])
  then have "distinct (map ?f (sort_key ?f c))"
    using inj by (simp add: distinct_map)
  moreover have "sorted (map ?f (sort_key ?f c))"
    by (rule sorted_sort_key)
  ultimately have "sorted_wrt (<) (map ?f (sort_key ?f c))"
    by (simp add: strict_sorted_iff)
  then have "sorted_wrt (\<lambda>x y. ?f x < ?f y) (sort_key ?f c)"
    by (simp add: sorted_wrt_map)
  then have "sorted_wrt (\<lambda>x y. snd x > snd y \<or> (snd x = snd y \<and> fst x < fst y))
      (sort_key ?f c)"
    by (rule sorted_wrt_mono_rel [rotated]) (auto simp: less_prod_def)
  then show ?thesis
    by (simp add: sorted_items_def)
qed

lemma count_red_balls_entry:
  assumes "x \<in> set (count_red_balls rs)"
  shows "snd x = count_list (concat (map reds rs)) (fst x)"
proof -
  have "(fst x, snd x) \<in> set (count_red_balls rs)"
    using assms by simp
  then have "map_of (count_red_balls rs) (fst x) = Some (snd x)"
    by (simp only: map_of_eq_Some_iff [OF count_red_balls_distinct])
  moreover have "fst x \<in> fst ` set (count_red_balls rs)"
    using assms by simp
  ultimately show ?thesis
    using map_of_count_red_balls [of "fst x" rs] by simp
qed

lemma ranking_by_frequency:
  "sorted_wrt (\<lambda>a b. count_list (concat (map reds rs)) a > count_list (concat (map reds rs)) b
        \<or> (count_list (concat (map reds rs)) a = count_list (concat (map reds rs)) b \<and> a < b))
     (map fst (sorted_items (count_red_balls rs)))"
proof -
  have "sorted_wrt (\<lambda>x y. snd x > snd y \<or> (snd x = snd y \<and> fst x < fst y))
      (sorted_items (count_red_balls rs))"
    by (rule sorted_items_strict [OF count_red_balls_distinct])
  then have "sorted_wrt (\<lambda>x y.
        count_list (concat (map reds rs)) (fst x) > count_list (concat (map reds rs)) (fst y)
        \<or> (count_list (concat (map reds rs)) (fst x) = count_list (concat (map reds rs)) (fst y)
            \<and> fst x < fst y))
      (sorted_items (count_red_balls rs))"
  proof (rule sorted_wrt_mono_rel [rotated])
    fix x y
    assume "x \<in> set (sorted_items (count_red_balls rs))"
      and "y \<in> set (sorted_items (count_red_balls rs))"
      and "snd x > snd y \<or> (snd x = snd y \<and> fst x < fst y)"
    then show "count_list (concat (map reds rs)) (fst x) > count_list (concat (map reds rs)) (fst y)
        \<or> (count_list (concat (map reds rs)) (fst x) = count_list (concat (map reds rs)) (fst y)
            \<and> fst x < fst y)"
      by (simp add: sorted_items_set count_red_balls_entry)
  qed
  then show ?thesis
    by (simp add: sorted_wrt_map)
qed

text \<open>
  Claim C3. For every non-empty window of draw records (records of the store, whose red
  balls lie in 1..33), the hot, warm and cold lists have 11 numbers each, share no number
  and together cover exactly 1..33. Read one after the other they are ordered by
  frequency: of any two numbers, the one standing earlier occurs more often among the red
  balls of the window, or as often and is the smaller number. So the hot list holds the 11
  most frequent numbers, the warm list the next 11 and the cold list the remaining 11.
  This classification is what \<^verbatim>\<open>analyze\<close> returns whenever it serves no cache entry.
\<close>

theorem analyze_tiers_partition:
  assumes ne: "records \<noteq> []"
    and valid: "list_all reds_in_range records"
  shows "length (hot (analyze_records records w now)) = 11
    \<and> length (warm (analyze_records records w now)) = 11
    \<and> length (cold (analyze_records records w now)) = 11
    \<and> distinct (hot (analyze_records records w now) @ warm (analyze_records records w now)
         @ cold (analyze_records records w now))
    \<and> set (hot (analyze_records records w now)) \<union> set (warm (analyze_records records w now))
         \<union> set (cold (analyze_records records w now)) = {1..33}
    \<and> hot (analyze_records records w now) @ warm (analyze_records records w now)
         @ cold (analyze_records records w now) = map fst (sorted_items (count_red_balls records))
    \<and> sorted_wrt
         (\<lambda>a b. count_list (concat (map reds records)) a > count_list (concat (map reds records)) b
            \<or> (count_list (concat (map reds records)) a = count_list (concat (map reds records)) b
                \<and> a < b))
         (hot (analyze_records records w now) @ warm (analyze_records records w now)
            @ cold (analyze_records records w now))
    \<and> (cache_lookup self w force_refresh now = None \<longrightarrow>
         fst (analyze self (Some records) (Some w) force_refresh now)
           = analyze_records records w now)"
proof -
  let ?items = "sorted_items (count_red_balls records)"
  have len: "length ?items = 33"
    by (simp add: sorted_items_length valid_length [OF valid])
  have h: "hot (analyze_records records w now) = map fst (slice 0 11 ?items)"
    and wm: "warm (analyze_records records w now) = map fst (slice 11 22 ?items)"
    and c: "cold (analyze_records records w now) = map fst (slice 22 33 ?items)"
    using ne by (simp_all add: analyze_records_def Let_def)
  have cat: "hot (analyze_records records w now) @ warm (analyze_records records w now)
         @ cold (analyze_records records w now) = map fst ?items"
    unfolding h wm c map_append [symmetric] slice_thirds [OF len] ..
  have dist: "distinct (map fst ?items)"
    by (rule sorted_items_distinct [OF count_red_balls_distinct])
  have keys: "set (map fst ?items) = {1..33}"
    using valid_keys [OF valid] by (simp add: sorted_items_set)
  have un: "set (hot (analyze_records records w now)) \<union> set (warm (analyze_records records w now))
         \<union> set (cold (analyze_records records w now)) = {1..33}"
    using keys unfolding cat [symmetric] by (simp add: Un_assoc)
  have ranked: "sorted_wrt
         (\<lambda>a b. count_list (concat (map reds records)) a > count_list (concat (map reds records)) b
            \<or> (count_list (concat (map reds records)) a = count_list (concat (map reds records)) b
                \<and> a < b))
         (hot (analyze_records records w now) @ warm (analyze_records records w now)
            @ cold (analyze_records records w now))"
    unfolding cat by (rule ranking_by_frequency)
  have lens: "length (hot (analyze_records records w now)) = 11"
    "length (warm (analyze_records records w now)) = 11"
    "length (cold (analyze_records records w now)) = 11"
    using length_slice_thirds [OF len] by (simp_all add: h wm c)
  have dist': "distinct (hot (analyze_records records w now) @ warm (analyze_records records w now)
         @ cold (analyze_records records w now))"
    unfolding cat by (rule dist)
  have entry: "cache_lookup self w force_refresh now = None \<longrightarrow>
         fst (analyze self (Some records) (Some w) force_refresh now)
           = analyze_records records w now"
    using ne by (simp add: analyze_def Let_def)
  show ?thesis
    using lens dist' un cat ranked entry by (intro conjI)
qed

theorem analyze_tiers_partition_witness:
  "hot (analyze_records [draw_1_to_6, draw_28_to_33, draw_28_to_33] 30 0)
     = [28, 29, 30, 31, 32, 33, 1, 2, 3, 4, 5]
   \<and> warm (analyze_records [draw_1_to_6, draw_28_to_33, draw_28_to_33] 30 0)
     = [6, 7, 8, 9, 10, 11, 12, 13, 14, 15, 16]
   \<and> cold (analyze_records [draw_1_to_6, draw_28_to_33, draw_28_to_33] 30 0)
     = [17, 18, 19, 20, 21, 22, 23, 24, 25, 26, 27]
   \<and> set (hot (analyze_records [draw_1_to_6, draw_28_to_33, draw_28_to_33] 30 0))
       \<union> set (warm (analyze_records [draw_1_to_6, draw_28_to_33, draw_28_to_33] 30 0))
       \<union> set (cold (analyze_records [draw_1_to_6, draw_28_to_33, draw_28_to_33] 30 0)) = {1..33}
   \<and> sorted_wrt
         (\<lambda>a b. count_list (concat (map reds [draw_1_to_6, draw_28_to_33, draw_28_to_33])) a
              > count_list (concat (map reds [draw_1_to_6, draw_28_to_33, draw_28_to_33])) b
            \<or> (count_list (concat (map reds [draw_1_to_6, draw_28_to_33, draw_28_to_33])) a
                = count_list (concat (map reds [draw_1_to_6, draw_28_to_33, draw_28_to_33])) b
                \<and> a < b))
         (hot (analyze_records [draw_1_to_6, draw_28_to_33, draw_28_to_33] 30 0)
            @ warm (analyze_records [draw_1_to_6, draw_28_to_33, draw_28_to_33] 30 0)
            @ cold (analyze_records [draw_1_to_6, draw_28_to_33, draw_28_to_33] 30 0))
   \<and> hot (fst (analyze (init_analyzer None 30)
        (Some [draw_1_to_6, draw_28_to_33, draw_28_to_33]) (Some 30) False 0))
     = [28, 29, 30, 31, 32, 33, 1, 2, 3, 4, 5]"
proof -
  let ?rs = "[draw_1_to_6, draw_28_to_33, draw_28_to_33]"
  have ne: "?rs \<noteq> []" by simp
  have valid: "list_all reds_in_range ?rs"
    by (simp add: reds_in_range_def reds_def draw_1_to_6_def draw_28_to_33_def)
  note inst = analyze_tiers_partition [OF ne valid, where w = 30 and now = 0
      and self = "init_analyzer None 30" and force_refresh = False]
  have h: "hot (analyze_records ?rs 30 0) = [28, 29, 30, 31, 32, 33, 1, 2, 3, 4, 5]"
    by code_simp
  have wm: "warm (analyze_records ?rs 30 0) = [6, 7, 8, 9, 10, 11, 12, 13, 14, 15, 16]"
    by code_simp
  have c: "cold (analyze_records ?rs 30 0) = [17, 18, 19, 20, 21, 22, 23, 24, 25, 26, 27]"
    by code_simp
  have un: "set (hot (analyze_records ?rs 30 0)) \<union> set (warm (analyze_records ?rs 30 0))
       \<union> set (cold (analyze_records ?rs 30 0)) = {1..33}"
    by (rule inst [THEN conjunct2, THEN conjunct2, THEN conjunct2, THEN conjunct2, THEN conjunct1])
  have ranked: "sorted_wrt
         (\<lambda>a b. count_list (concat (map reds ?rs)) a > count_list (concat (map reds ?rs)) b
            \<or> (count_list (concat (map reds ?rs)) a = count_list (concat (map reds ?rs)) b
                \<and> a < b))
         (hot (analyze_records ?rs 30 0) @ warm (analyze_records ?rs 30 0)
            @ cold (analyze_records ?rs 30 0))"
    by (rule inst [THEN conjunct2, THEN conjunct2, THEN conjunct2, THEN conjunct2,
          THEN conjunct2, THEN conjunct2, THEN conjunct1])
  have entry: "fst (analyze (init_analyzer None 30) (Some ?rs) (Some 30) False 0)
      = analyze_records ?rs 30 0"
    by (rule inst [THEN conjunct2, THEN conjunct2, THEN conjunct2, THEN conjunct2,
          THEN conjunct2, THEN conjunct2, THEN conjunct2, THEN mp, OF cache_lookup_fresh])
  have h': "hot (fst (analyze (init_analyzer None 30) (Some ?rs) (Some 30) False 0))
      = [28, 29, 30, 31, 32, 33, 1, 2, 3, 4, 5]"
    unfolding entry by (rule h)
  show ?thesis
    using h wm c un ranked h' by (intro conjI)
qed

text \<open>
  Claim C4. The ranking of a frequency table (a dictionary, so its keys are distinct) is
  ordered by descending count, and numbers with equal counts are ordered by ascending
  number: whenever two ranked numbers have equal counts, the smaller one stands at the
  earlier rank.
\<close>

theorem sorted_items_ranking:
  assumes "distinct (map fst c)"
  shows "sorted_wrt (\<lambda>x y. snd x > snd y \<or> (snd x = snd y \<and> fst x < fst y)) (sorted_items c)
    \<and> (\<forall>i j. i < length (sorted_items c) \<and> j < length (sorted_items c)
          \<and> snd (sorted_items c ! i) = snd (sorted_items c ! j)
          \<and> fst (sorted_items c ! i) < fst (sorted_items c ! j) \<longrightarrow> i < j)"
proof -
  let ?R = "\<lambda>x y::int \<times> nat. snd x > snd y \<or> (snd x = snd y \<and> fst x < fst y)"
  have ranked: "sorted_wrt ?R (sorted_items c)"
    using assms by (rule sorted_items_strict)
  have "i < j"
    if "i < length (sorted_items c)" "j < length (sorted_items c)"
      "snd (sorted_items c ! i) = snd (sorted_items c ! j)"
      "fst (sorted_items c ! i) < fst (sorted_items c ! j)" for i j
  proof (rule ccontr)
    assume "\<not> i < j"
    then consider "j = i" | "j < i" by linarith
    then show False
    proof cases
      case 1
      with that show False by simp
    next
      case 2
      have "?R (sorted_items c ! j) (sorted_items c ! i)"
        by (rule sorted_wrt_nth_less [OF ranked 2 that(1)])
      with that show False by simp
    qed
  qed
  with ranked show ?thesis by blast
qed

theorem sorted_items_ranking_witness:
  "sorted_wrt (\<lambda>x y. snd x > snd y \<or> (snd x = snd y \<and> fst x < fst y))
     (sorted_items [(7, 2), (3, 4), (5, 2)])
   \<and> sorted_items [(7, 2), (3, 4), (5, 2)] = [(3, 4), (5, 2), (7, 2)]"
proof -
  have d: "distinct (map fst [(7::int, 2::nat), (3, 4), (5, 2)])" by simp
  have "sorted_items [(7, 2), (3, 4), (5, 2)] = [(3, 4), (5, 2), (7, 2)]"
    by (simp add: sorted_items_def)
  with sorted_items_ranking [OF d] show ?thesis by blast
qed

text \<open>
  Claim C5, as the code has it. The counting helper returns, for every sequence of draws
  and for the empty one too, a table with exactly one entry for each number 1..33, holding
  the number of its occurrences (zero when absent). A call of \<^verbatim>\<open>analyze\<close> that serves
  no cache entry returns that table and the number of draws for every non-empty input;
  for the empty input it returns the empty result, a value and not an error, whose sample
  size is 0 and whose table has no entry at all. A call that serves a cache entry returns
  the entry, with the table and the sample size of the call that stored it.
\<close>

theorem frequency_table_entries:
  "(\<forall>b\<in>{1..33}. map_of (count_red_balls records) b
        = Some (count_list (concat (map reds records)) b))
   \<and> distinct (map fst (count_red_balls records))
   \<and> (cache_lookup self w force_refresh now = None \<and> records \<noteq> [] \<longrightarrow>
        red_counts (fst (analyze self (Some records) (Some w) force_refresh now))
          = count_red_balls records
        \<and> total_records (fst (analyze self (Some records) (Some w) force_refresh now))
          = length records)
   \<and> (cache_lookup self w force_refresh now = None \<and> records = [] \<longrightarrow>
        fst (analyze self (Some records) (Some w) force_refresh now) = get_empty_result w now
        \<and> red_counts (fst (analyze self (Some records) (Some w) force_refresh now)) = []
        \<and> total_records (fst (analyze self (Some records) (Some w) force_refresh now)) = 0)
   \<and> (cache_lookup self w force_refresh now = Some cached \<longrightarrow>
        fst (analyze self (Some records) (Some w) force_refresh now) = cached)"
proof -
  have A: "\<forall>b\<in>{1..33}. map_of (count_red_balls records) b
      = Some (count_list (concat (map reds records)) b)"
    by (intro ballI map_of_count_red_balls) (simp add: count_red_balls_keys)
  have B: "distinct (map fst (count_red_balls records))"
    by (rule count_red_balls_distinct)
  have C: "cache_lookup self w force_refresh now = None \<and> records \<noteq> [] \<longrightarrow>
        red_counts (fst (analyze self (Some records) (Some w) force_refresh now))
          = count_red_balls records
        \<and> total_records (fst (analyze self (Some records) (Some w) force_refresh now))
          = length records"
    by (simp add: analyze_def analyze_records_def Let_def)
  have D: "cache_lookup self w force_refresh now = None \<and> records = [] \<longrightarrow>
        fst (analyze self (Some records) (Some w) force_refresh now) = get_empty_result w now
        \<and> red_counts (fst (analyze self (Some records) (Some w) force_refresh now)) = []
        \<and> total_records (fst (analyze self (Some records) (Some w) force_refresh now)) = 0"
    by (simp add: analyze_def get_empty_result_def)
  have E: "cache_lookup self w force_refresh now = Some cached \<longrightarrow>
        fst (analyze self (Some records) (Some w) force_refresh now) = cached"
    by (simp add: analyze_def)
  show ?thesis
    using A B C D E by (intro conjI)
qed

theorem frequency_table_entries_witness:
  "map_of (count_red_balls [draw_1_to_6]) 6 = Some 1
   \<and> map_of (count_red_balls [draw_1_to_6]) 33 = Some 0
   \<and> map_of (count_red_balls []) 33 = Some 0
   \<and> red_counts (fst (analyze (init_analyzer None 30) (Some [draw_1_to_6]) (Some 30) False 0))
       = count_red_balls [draw_1_to_6]
   \<and> total_records (fst (analyze (init_analyzer None 30) (Some [draw_1_to_6]) (Some 30) False 0))
       = 1
   \<and> red_counts (fst (analyze (init_analyzer None 30) (Some []) (Some 30) False 0)) = []
   \<and> fst (analyze warm_analyzer (Some [draw_28_to_33, draw_28_to_33]) (Some 30) False 10)
       = analyze_records [draw_1_to_6] 30 0"
proof -
  have a: "(6::int) \<in> {1..33}" and b: "(33::int) \<in> {1..33}" by simp_all
  have ne: "[draw_1_to_6] \<noteq> []" by simp
  have c6: "count_list (concat (map reds [draw_1_to_6])) 6 = 1"
    and c33: "count_list (concat (map reds [draw_1_to_6])) 33 = 0"
    by (simp_all add: reds_def draw_1_to_6_def)
  note fresh = frequency_table_entries [where records = "[draw_1_to_6]"
      and self = "init_analyzer None 30" and w = 30 and force_refresh = False and now = 0]
  note empty = frequency_table_entries [where records = "[]"
      and self = "init_analyzer None 30" and w = 30 and force_refresh = False and now = 0]
  note hit = frequency_table_entries [where records = "[draw_28_to_33, draw_28_to_33]"
      and self = warm_analyzer and w = 30 and force_refresh = False and now = 10
      and cached = "analyze_records [draw_1_to_6] 30 0"]
  have miss: "cache_lookup (init_analyzer None 30) 30 False 0 = None"
    by (rule cache_lookup_fresh)
  have t1: "map_of (count_red_balls [draw_1_to_6]) 6 = Some 1"
    using fresh [THEN conjunct1, THEN bspec, OF a] c6 by simp
  have t2: "map_of (count_red_balls [draw_1_to_6]) 33 = Some 0"
    using fresh [THEN conjunct1, THEN bspec, OF b] c33 by simp
  have t3: "map_of (count_red_balls []) 33 = Some 0"
    using empty [THEN conjunct1, THEN bspec, OF b] by simp
  have t45: "red_counts (fst (analyze (init_analyzer None 30) (Some [draw_1_to_6]) (Some 30) False 0))
       = count_red_balls [draw_1_to_6]
     \<and> total_records (fst (analyze (init_analyzer None 30) (Some [draw_1_to_6]) (Some 30) False 0))
       = length [draw_1_to_6]"
    by (rule fresh [THEN conjunct2, THEN conjunct2, THEN conjunct1, THEN mp, OF conjI, OF miss ne])
  have t6: "fst (analyze (init_analyzer None 30) (Some []) (Some 30) False 0) = get_empty_result 30 0
     \<and> red_counts (fst (analyze (init_analyzer None 30) (Some []) (Some 30) False 0)) = []
     \<and> total_records (fst (analyze (init_analyzer None 30) (Some []) (Some 30) False 0)) = 0"
    by (rule empty [THEN conjunct2, THEN conjunct2, THEN conjunct2, THEN conjunct1, THEN mp,
          OF conjI, OF miss refl])
  have t7: "fst (analyze warm_analyzer (Some [draw_28_to_33, draw_28_to_33]) (Some 30) False 10)
       = analyze_records [draw_1_to_6] 30 0"
    by (rule hit [THEN conjunct2, THEN conjunct2, THEN conjunct2, THEN conjunct2, THEN mp,
          OF cache_lookup_warm])
  have t4: "red_counts (fst (analyze (init_analyzer None 30) (Some [draw_1_to_6]) (Some 30) False 0))
       = count_red_balls [draw_1_to_6]"
    using t45 by blast
  have t5: "total_records (fst (analyze (init_analyzer None 30) (Some [draw_1_to_6]) (Some 30)
       False 0)) = 1"
    using t45 by simp
  have t6': "red_counts (fst (analyze (init_analyzer None 30) (Some []) (Some 30) False 0)) = []"
    using t6 by blast
  show ?thesis
    using t1 t2 t3 t4 t5 t6' t7 by (intro conjI)
qed

text \<open>
  The claim as written fails on the empty input: the analyzer, fresh and without a
  database, returns for an empty record list a table in which number 1 has no entry. It
  fails on a warm cache too: given two draws, the analyzer returns the cached result of an
  earlier call on one draw, with sample size 1 and the count 0 for number 28, which the
  two draws hold twice.
\<close>

theorem analyze_empty_table_counterexample:
  "map_of (red_counts (fst (analyze (init_analyzer None 30) (Some []) (Some 30) False 0))) 1 = None
   \<and> total_records (fst (analyze (init_analyzer None 30) (Some []) (Some 30) False 0)) = 0
   \<and> total_records (fst (analyze warm_analyzer (Some [draw_28_to_33, draw_28_to_33]) (Some 30)
        False 10)) = 1
   \<and> map_of (red_counts (fst (analyze warm_analyzer (Some [draw_28_to_33, draw_28_to_33])
        (Some 30) False 10))) 28 = Some 0
   \<and> count_list (concat (map reds [draw_28_to_33, draw_28_to_33])) 28 = 2"
proof -
  have e: "map_of (red_counts (fst (analyze (init_analyzer None 30) (Some []) (Some 30) False 0))) 1
      = None
    \<and> total_records (fst (analyze (init_analyzer None 30) (Some []) (Some 30) False 0)) = 0"
    by (simp add: analyze_def init_analyzer_def cache_lookup_def get_empty_result_def)
  have hit: "fst (analyze warm_analyzer (Some [draw_28_to_33, draw_28_to_33]) (Some 30) False 10)
      = analyze_records [draw_1_to_6] 30 0"
    by (simp add: analyze_def cache_lookup_warm)
  have t: "total_records (analyze_records [draw_1_to_6] 30 0) = 1"
    by (simp add: analyze_records_def Let_def)
  have m: "map_of (red_counts (analyze_records [draw_1_to_6] 30 0)) 28 = Some 0"
    by code_simp
  have c: "count_list (concat (map reds [draw_28_to_33, draw_28_to_33])) 28 = 2"
    by (simp add: reds_def draw_28_to_33_def)
  from e hit t m c show ?thesis by simp
qed

subsection \<open>The result cache\<close>

text \<open>
  Claim C9, as the code has it. When no cache entry is served (a forced refresh, no entry
  under the window's key, or an entry as old as the TTL or older) the result is the one
  computed from the records of the call, or from the database's most recent records when
  none are passed, and a result computed from a non-empty list, passed or read from the
  database, is stored under the window's key. When an entry is served, the call returns that entry and leaves the
  analyzer as it was, whatever records were passed.
\<close>

theorem analyze_cache:
  "(cache_lookup self w force_refresh now = None \<longrightarrow>
      fst (analyze self (Some records) (Some w) force_refresh now) = analyze_records records w now)
   \<and> (cache_lookup self w force_refresh now = None \<and> db self = Some table \<longrightarrow>
      fst (analyze self None (Some w) force_refresh now)
        = analyze_records (get_recent_records table w) w now)
   \<and> (cache_lookup self w force_refresh now = None \<and> records \<noteq> [] \<longrightarrow>
      cached_results (snd (analyze self (Some records) (Some w) force_refresh now)) w
        = Some (analyze_records records w now))
   \<and> (cache_lookup self w force_refresh now = Some cached \<longrightarrow>
      analyze self records_arg (Some w) force_refresh now = (cached, self))
   \<and> (cache_lookup self w force_refresh now = Some cached \<longleftrightarrow>
      \<not> force_refresh \<and> cached_results self w = Some cached
        \<and> now - cache_time cached < cache_ttl self)
   \<and> (cache_lookup self w force_refresh now = None \<and> db self = Some table
        \<and> get_recent_records table w \<noteq> [] \<longrightarrow>
      cached_results (snd (analyze self None (Some w) force_refresh now)) w
        = Some (analyze_records (get_recent_records table w) w now))"
  by (auto simp: analyze_def Let_def cache_lookup_def analyze_records_def split: option.splits)

theorem analyze_cache_witness:
  "fst (analyze (init_analyzer None 30) (Some [draw_1_to_6]) (Some 30) False 0)
     = analyze_records [draw_1_to_6] 30 0
   \<and> fst (analyze (init_analyzer (Some [draw_1_to_6]) 30) None (Some 30) False 0)
     = analyze_records (get_recent_records [draw_1_to_6] 30) 30 0
   \<and> cached_results (snd (analyze (init_analyzer None 30) (Some [draw_1_to_6]) (Some 30) False 0)) 30
     = Some (analyze_records [draw_1_to_6] 30 0)
   \<and> analyze warm_analyzer (Some [draw_28_to_33]) (Some 30) False 10
     = (analyze_records [draw_1_to_6] 30 0, warm_analyzer)
   \<and> cached_results (snd (analyze (init_analyzer (Some [draw_1_to_6]) 30) None (Some 30) False 0)) 30
     = Some (analyze_records (get_recent_records [draw_1_to_6] 30) 30 0)"
proof -
  have d: "db (init_analyzer (Some [draw_1_to_6]) 30) = Some [draw_1_to_6]"
    by (simp add: init_analyzer_def)
  have ne: "[draw_1_to_6] \<noteq> []" by simp
  have ne': "get_recent_records [draw_1_to_6] 30 \<noteq> []"
    by (simp add: get_recent_records_def get_all_records_def)
  from analyze_cache [of "init_analyzer None 30" 30 False 0 "[draw_1_to_6]"]
  have "fst (analyze (init_analyzer None 30) (Some [draw_1_to_6]) (Some 30) False 0)
      = analyze_records [draw_1_to_6] 30 0"
    "cached_results (snd (analyze (init_analyzer None 30) (Some [draw_1_to_6]) (Some 30) False 0)) 30
      = Some (analyze_records [draw_1_to_6] 30 0)"
    using cache_lookup_fresh ne by blast+
  moreover from analyze_cache [of "init_analyzer (Some [draw_1_to_6]) 30" 30 False 0 _ "[draw_1_to_6]"]
  have "fst (analyze (init_analyzer (Some [draw_1_to_6]) 30) None (Some 30) False 0)
      = analyze_records (get_recent_records [draw_1_to_6] 30) 30 0"
    "cached_results (snd (analyze (init_analyzer (Some [draw_1_to_6]) 30) None (Some 30) False 0)) 30
      = Some (analyze_records (get_recent_records [draw_1_to_6] 30) 30 0)"
    using cache_lookup_fresh d ne' by blast+
  moreover from analyze_cache [of warm_analyzer 30 False 10 _ _ "analyze_records [draw_1_to_6] 30 0"]
  have "analyze warm_analyzer (Some [draw_28_to_33]) (Some 30) False 10
      = (analyze_records [draw_1_to_6] 30 0, warm_analyzer)"
    using cache_lookup_warm by blast
  ultimately show ?thesis by blast
qed

text \<open>
  The claim as written fails on a warm cache: ten seconds after a call on one draw, a call
  with the same window and another draw returns the first call's hot list, not the hot
  list of the records it was given.
\<close>

theorem analyze_warm_cache_counterexample:
  "hot (fst (analyze warm_analyzer (Some [draw_28_to_33]) (Some 30) False 10))
     = [1, 2, 3, 4, 5, 6, 7, 8, 9, 10, 11]
   \<and> hot (analyze_records [draw_28_to_33] 30 10) = [28, 29, 30, 31, 32, 33, 1, 2, 3, 4, 5]"
proof -
  have "fst (analyze warm_analyzer (Some [draw_28_to_33]) (Some 30) False 10)
      = analyze_records [draw_1_to_6] 30 0"
    by (simp add: analyze_def cache_lookup_warm)
  moreover have "hot (analyze_records [draw_1_to_6] 30 0) = [1, 2, 3, 4, 5, 6, 7, 8, 9, 10, 11]"
    by code_simp
  moreover have "hot (analyze_records [draw_28_to_33] 30 10) = [28, 29, 30, 31, 32, 33, 1, 2, 3, 4, 5]"
    by code_simp
  ultimately show ?thesis by simp
qed

subsection \<open>Cross-window consistency\<close>

lemma fill_window:
  "distinct bs \<Longrightarrow>
   fold (\<lambda>b d'. d'(b := d' b @ [f b])) bs d x = (if x \<in> set bs then d x @ [f x] else d x)"
  by (induction bs arbitrary: d) auto

lemma collect_statuses_aux:
  "x \<in> {1..33} \<Longrightarrow>
   fold (\<lambda>window_data d.
             fold (\<lambda>b d'. d'(b := d' b @ [window_status window_data b])) [1..33] d)
          windows d0 x = d0 x @ map (\<lambda>window_data. window_status window_data x) windows"
  by (induction windows arbitrary: d0) (simp_all add: fill_window)

lemma collect_statuses_eq:
  "x \<in> {1..33} \<Longrightarrow>
   collect_statuses windows x = map (\<lambda>window_data. window_status window_data x) windows"
  by (simp add: collect_statuses_def collect_statuses_aux)

lemma verdicts_judge: "set (verdicts (judge_ball bs b cons)) = insert b (set (verdicts cons))"
  by (auto simp: judge_ball_def verdicts_def Let_def split: heat.splits)

lemma length_verdicts_judge: "length (verdicts (judge_ball bs b cons)) = Suc (length (verdicts cons))"
  by (auto simp: judge_ball_def verdicts_def Let_def split: heat.splits)

lemma verdicts_fold:
  "set (verdicts (fold (judge_ball bs) balls cons)) = set balls \<union> set (verdicts cons)"
  by (induction balls arbitrary: cons) (simp_all add: verdicts_judge)

lemma length_verdicts_fold:
  "length (verdicts (fold (judge_ball bs) balls cons)) = length balls + length (verdicts cons)"
  by (induction balls arbitrary: cons) (simp_all add: length_verdicts_judge)

lemma single_status_iff:
  "card (set xs) = 1 \<and> hd xs = a \<longleftrightarrow> xs \<noteq> [] \<and> set xs = {a}"
proof
  assume h: "card (set xs) = 1 \<and> hd xs = a"
  then have "card (set xs) = 1" by simp
  then obtain y where y: "set xs = {y}"
    by (rule card_1_singletonE)
  then have "xs \<noteq> []" by auto
  then have "hd xs \<in> set xs" by simp
  with y h show "xs \<noteq> [] \<and> set xs = {a}" using \<open>xs \<noteq> []\<close> by auto
next
  assume h: "xs \<noteq> [] \<and> set xs = {a}"
  then have "hd xs \<in> {a}" by (metis hd_in_set)
  with h show "card (set xs) = 1 \<and> hd xs = a" by simp
qed

lemma hot_judge:
  "set (consistent_hot (judge_ball bs b cons))
     = set (consistent_hot cons) \<union> (if card (set (bs b)) = 1 \<and> hd (bs b) = Hot then {b} else {})"
  by (auto simp: judge_ball_def Let_def split: heat.splits)

lemma warm_judge:
  "set (consistent_warm (judge_ball bs b cons))
     = set (consistent_warm cons) \<union> (if card (set (bs b)) = 1 \<and> hd (bs b) = Warm then {b} else {})"
  by (auto simp: judge_ball_def Let_def split: heat.splits)

lemma cold_judge:
  "set (consistent_cold (judge_ball bs b cons))
     = set (consistent_cold cons) \<union> (if card (set (bs b)) = 1 \<and> hd (bs b) = Cold then {b} else {})"
  by (auto simp: judge_ball_def Let_def split: heat.splits)

lemma hot_fold:
  "set (consistent_hot (fold (judge_ball bs) balls cons))
     = set (consistent_hot cons) \<union> {b \<in> set balls. card (set (bs b)) = 1 \<and> hd (bs b) = Hot}"
  by (induction balls arbitrary: cons) (auto simp: hot_judge split: if_splits)

lemma warm_fold:
  "set (consistent_warm (fold (judge_ball bs) balls cons))
     = set (consistent_warm cons) \<union> {b \<in> set balls. card (set (bs b)) = 1 \<and> hd (bs b) = Warm}"
  by (induction balls arbitrary: cons) (auto simp: warm_judge split: if_splits)

lemma cold_fold:
  "set (consistent_cold (fold (judge_ball bs) balls cons))
     = set (consistent_cold cons) \<union> {b \<in> set balls. card (set (bs b)) = 1 \<and> hd (bs b) = Cold}"
  by (induction balls arbitrary: cons) (auto simp: cold_judge split: if_splits)

lemma set_sort_if_nonempty: "set (sort_if_nonempty xs) = set xs"
  by (simp add: sort_if_nonempty_def)

lemma length_sort_if_nonempty: "length (sort_if_nonempty xs) = length xs"
  by (simp add: sort_if_nonempty_def)

lemma statuses_all:
  assumes "windows \<noteq> []"
  shows "(map (\<lambda>wd. window_status wd x) windows \<noteq> []
           \<and> set (map (\<lambda>wd. window_status wd x) windows) = {s})
         \<longleftrightarrow> (\<forall>wd\<in>set windows. window_status wd x = s)"
  using assms by (cases windows) auto

lemma consistent_status:
  assumes ne: "windows \<noteq> []" and b: "b \<in> {1..33}"
  shows "(card (set (collect_statuses windows b)) = 1 \<and> hd (collect_statuses windows b) = s)
         \<longleftrightarrow> (\<forall>wd\<in>set windows. window_status wd b = s)"
  unfolding single_status_iff collect_statuses_eq [OF b] by (rule statuses_all [OF ne])

lemma consistent_group:
  assumes ne: "windows \<noteq> []"
  shows "{b \<in> set [1..33]. card (set (collect_statuses windows b)) = 1
            \<and> hd (collect_statuses windows b) = s}
         = {b \<in> {1..33}. \<forall>wd\<in>set windows. window_status wd b = s}"
proof -
  have "set [1..33] = {1..33::int}" by simp
  then show ?thesis
    using consistent_status [OF ne] by (simp only: cong: conj_cong) 
qed

lemma verdicts_sorted_set:
  "set (verdicts (c\<lparr>consistent_hot := sort_if_nonempty (consistent_hot c),
                 consistent_warm := sort_if_nonempty (consistent_warm c),
                 consistent_cold := sort_if_nonempty (consistent_cold c)\<rparr>)) = set (verdicts c)"
  by (simp add: verdicts_def set_sort_if_nonempty)

lemma verdicts_sorted_length:
  "length (verdicts (c\<lparr>consistent_hot := sort_if_nonempty (consistent_hot c),
                 consistent_warm := sort_if_nonempty (consistent_warm c),
                 consistent_cold := sort_if_nonempty (consistent_cold c)\<rparr>)) = length (verdicts c)"
  by (simp add: verdicts_def length_sort_if_nonempty)

lemma status_Hot: "window_status wd b = Hot \<longleftrightarrow> b \<in> set (hot wd)"
  and status_Warm: "window_status wd b = Warm \<longleftrightarrow> b \<notin> set (hot wd) \<and> b \<in> set (warm wd)"
  and status_Cold: "window_status wd b = Cold \<longleftrightarrow> b \<notin> set (hot wd) \<and> b \<notin> set (warm wd)"
  by (simp_all add: window_status_def)

text \<open>
  Claim C10. With at least two windows the analysis returns its four verdict groups, and
  every number of 1..33 stands in exactly one of them, once: the groups together have no
  repetition and cover exactly 1..33. A number is consistently cold exactly when every
  window has it neither in its hot list nor in its warm list, whatever the window's cold
  list holds, so a window without any classification counts every number as cold.
\<close>

theorem cross_window_verdicts:
  assumes two: "2 \<le> length window_results"
  shows "\<exists>cons. analyze_cross_window_consistency window_results = Consistency cons
     \<and> distinct (verdicts cons) \<and> set (verdicts cons) = {1..33}
     \<and> set (consistent_hot cons)
         = {b \<in> {1..33}. \<forall>wd\<in>set (map snd window_results). b \<in> set (hot wd)}
     \<and> set (consistent_warm cons)
         = {b \<in> {1..33}. \<forall>wd\<in>set (map snd window_results).
              b \<notin> set (hot wd) \<and> b \<in> set (warm wd)}
     \<and> set (consistent_cold cons)
         = {b \<in> {1..33}. \<forall>wd\<in>set (map snd window_results).
              b \<notin> set (hot wd) \<and> b \<notin> set (warm wd)}"
proof -
  let ?ws = "map snd window_results"
  let ?bs = "collect_statuses ?ws"
  let ?e = "\<lparr>consistent_hot = [], consistent_warm = [], consistent_cold = [], varying = []\<rparr>"
  let ?raw = "fold (judge_ball ?bs) [1..33] ?e"
  let ?fin = "?raw\<lparr>consistent_hot := sort_if_nonempty (consistent_hot ?raw),
                 consistent_warm := sort_if_nonempty (consistent_warm ?raw),
                 consistent_cold := sort_if_nonempty (consistent_cold ?raw)\<rparr>"
  have ne: "?ws \<noteq> []"
    using two by auto
  have res: "analyze_cross_window_consistency window_results = Consistency ?fin"
    using two by (simp add: analyze_cross_window_consistency_def Let_def)
  have e: "verdicts ?e = []"
    by (simp add: verdicts_def)
  have set0: "set (verdicts ?raw) = {1..33}"
    by (simp add: verdicts_fold e)
  have len0: "length (verdicts ?raw) = 33"
    by (simp add: length_verdicts_fold e)
  have setc: "set (verdicts ?fin) = {1..33}"
    by (simp only: verdicts_sorted_set set0)
  have lenc: "length (verdicts ?fin) = 33"
    by (simp only: verdicts_sorted_length len0)
  have "card (set (verdicts ?fin)) = length (verdicts ?fin)"
    by (simp only: setc lenc) simp
  then have dist: "distinct (verdicts ?fin)"
    by (rule card_distinct)
  have h: "set (consistent_hot ?fin) = {b \<in> {1..33}. \<forall>wd\<in>set ?ws. b \<in> set (hot wd)}"
    using consistent_group [OF ne, of Hot]
    by (simp add: set_sort_if_nonempty hot_fold status_Hot del: set_upto set_map)
  have w: "set (consistent_warm ?fin)
      = {b \<in> {1..33}. \<forall>wd\<in>set ?ws. b \<notin> set (hot wd) \<and> b \<in> set (warm wd)}"
    using consistent_group [OF ne, of Warm]
    by (simp add: set_sort_if_nonempty warm_fold status_Warm del: set_upto set_map)
  have c: "set (consistent_cold ?fin)
      = {b \<in> {1..33}. \<forall>wd\<in>set ?ws. b \<notin> set (hot wd) \<and> b \<notin> set (warm wd)}"
    using consistent_group [OF ne, of Cold]
    by (simp add: set_sort_if_nonempty cold_fold status_Cold del: set_upto set_map)
  show ?thesis
    using res dist setc h w c by blast
qed

theorem cross_window_verdicts_witness:
  "\<exists>cons. analyze_cross_window_consistency two_windows = Consistency cons
     \<and> distinct (verdicts cons) \<and> set (verdicts cons) = {1..33}
     \<and> set (consistent_hot cons)
         = {b \<in> {1..33}. \<forall>wd\<in>set (map snd two_windows). b \<in> set (hot wd)}
     \<and> set (consistent_warm cons)
         = {b \<in> {1..33}. \<forall>wd\<in>set (map snd two_windows).
              b \<notin> set (hot wd) \<and> b \<in> set (warm wd)}
     \<and> set (consistent_cold cons)
         = {b \<in> {1..33}. \<forall>wd\<in>set (map snd two_windows).
              b \<notin> set (hot wd) \<and> b \<notin> set (warm wd)}"
proof -
  have two: "2 \<le> length two_windows" by (simp add: two_windows_def)
  show ?thesis
    by (rule cross_window_verdicts [OF two])
qed

subsection \<open>Per-number trend\<close>

lemma adjacent_all_successively: "adjacent_all P xs = successively P xs"
  by (induction P xs rule: adjacent_all.induct) simp_all

lemma adjacent_all_sorted: "adjacent_all (\<le>) xs = sorted (xs :: 'a::linorder list)"
proof -
  have "successively (\<le>) xs = sorted_wrt (\<le>) xs"
    by (rule successively_conv_sorted_wrt) (rule transp_on_le)
  then show ?thesis
    by (simp add: adjacent_all_successively)
qed

lemma adjacent_all_sorted_rev: "adjacent_all (\<ge>) xs = sorted (rev (xs :: 'a::linorder list))"
proof -
  have "successively (\<ge>) xs = sorted_wrt (\<ge>) xs"
    by (rule successively_conv_sorted_wrt) (rule transp_on_ge)
  then show ?thesis
    by (simp add: adjacent_all_successively sorted_wrt_rev)
qed

lemma both_sorted_const:
  assumes up: "sorted xs" and down: "sorted (rev xs)" and ne: "xs \<noteq> []"
  shows "Max (set xs) = Min (set (xs :: 'a::linorder list))"
proof -
  have le: "x \<le> y" if "x \<in> set xs" "y \<in> set xs" for x y
  proof -
    from that obtain i j where ij: "i < length xs" "j < length xs" "xs ! i = x" "xs ! j = y"
      by (metis in_set_conv_nth)
    consider "i \<le> j" | "j \<le> i" by linarith
    then show ?thesis
    proof cases
      case 1
      with up ij show ?thesis by (auto simp: sorted_iff_nth_mono)
    next
      case 2
      have "rev xs ! (length xs - Suc i) \<le> rev xs ! (length xs - Suc j)"
        using down 2 ij by (intro sorted_nth_mono) auto
      with ij show ?thesis by (simp add: rev_nth)
    qed
  qed
  have "Max (set xs) \<in> set xs" "Min (set xs) \<in> set xs"
    using ne by simp_all
  then show ?thesis
    using le by (simp add: order_antisym)
qed

lemma threshold_floats:
  "round_float (3 / 100) < round_float (5 / 100)" "0 < round_float (5 / 100)"
  by code_simp+

lemma spread_nonneg: "ps \<noteq> [] \<Longrightarrow> 0 \<le> Max (set ps) - Min (set (ps :: rat list))"
  by simp

lemma round_float_error_decimal:
  "\<bar>round_float x - x\<bar> \<le> \<bar>x\<bar> * (2 / 10 ^ 16) + 1 / 10 ^ 20"
proof -
  have "(1::rat) / 2 ^ 53 \<le> 2 / 10 ^ 16" by simp
  then have "\<bar>x\<bar> * (1 / 2 ^ 53) \<le> \<bar>x\<bar> * (2 / 10 ^ 16)"
    by (intro mult_left_mono) simp_all
  moreover have "(1::rat) / 2 ^ 100 \<le> 1 / 10 ^ 20" by simp
  ultimately show ?thesis
    using round_float_error_small [of x] by linarith
qed

lemma round_float_bounds:
  assumes "0 \<le> d"
  shows "d - d * (2 / 10 ^ 16) - 1 / 10 ^ 20 \<le> round_float d"
    and "round_float d \<le> d + d * (2 / 10 ^ 16) + 1 / 10 ^ 20"
  using round_float_error_decimal [of d] assms by (simp_all add: abs_le_iff) 

lemma scale_up:
  assumes "c \<le> d"
  shows "c * (1 - 2 / 10 ^ 16) - 1 / 10 ^ 20 \<le> d - d * (2 / 10 ^ 16) - (1 / 10 ^ 20 :: rat)"
proof -
  have "c * (1 - 2 / 10 ^ 16) \<le> d * (1 - 2 / 10 ^ 16)"
    using assms by (intro mult_right_mono) simp_all
  also have "\<dots> = d - d * (2 / 10 ^ 16)"
    by (simp only: right_diff_distrib mult_1_right)
  finally show ?thesis by simp
qed

lemma scale_down:
  assumes "d \<le> c"
  shows "d + d * (2 / 10 ^ 16) + 1 / 10 ^ 20 \<le> c * (1 + 2 / 10 ^ 16) + (1 / 10 ^ 20 :: rat)"
proof -
  have "d * (1 + 2 / 10 ^ 16) \<le> c * (1 + 2 / 10 ^ 16)"
    using assms by (intro mult_right_mono) simp_all
  moreover have "d * (1 + 2 / 10 ^ 16) = d + d * (2 / 10 ^ 16)"
    by (simp only: distrib_left mult_1_right)
  ultimately show ?thesis by simp
qed

lemma above_five:
  assumes "5 / 100 + 1 / 10 ^ 15 \<le> d"
  shows "round_float d > round_float (5 / 100)"
proof -
  have d: "0 \<le> d" using assms by simp
  have "round_float (5 / 100) \<le> 5 / 100 + (5 / 100) * (2 / 10 ^ 16) + 1 / 10 ^ 20"
    by (rule round_float_bounds(2)) simp
  also have "\<dots> < (5 / 100 + 1 / 10 ^ 15) * (1 - 2 / 10 ^ 16) - 1 / 10 ^ 20"
    by simp
  also have "\<dots> \<le> d - d * (2 / 10 ^ 16) - 1 / 10 ^ 20"
    using assms by (rule scale_up)
  also have "\<dots> \<le> round_float d"
    using d by (rule round_float_bounds(1))
  finally show ?thesis .
qed

lemma below_five:
  assumes "0 \<le> d" "d \<le> 5 / 100 - 1 / 10 ^ 15"
  shows "\<not> round_float d > round_float (5 / 100)"
proof -
  have "round_float d \<le> d + d * (2 / 10 ^ 16) + 1 / 10 ^ 20"
    using assms(1) by (rule round_float_bounds(2))
  also have "\<dots> \<le> (5 / 100 - 1 / 10 ^ 15) * (1 + 2 / 10 ^ 16) + 1 / 10 ^ 20"
    using assms(2) by (rule scale_down)
  also have "\<dots> \<le> 5 / 100 - (5 / 100) * (2 / 10 ^ 16) - 1 / 10 ^ 20"
    by simp
  also have "\<dots> \<le> round_float (5 / 100)"
    by (rule round_float_bounds(1)) simp
  finally show ?thesis by simp
qed

lemma above_three:
  assumes "3 / 100 + 1 / 10 ^ 15 \<le> d"
  shows "\<not> round_float d \<le> round_float (3 / 100)"
proof -
  have d: "0 \<le> d" using assms by simp
  have "round_float (3 / 100) \<le> 3 / 100 + (3 / 100) * (2 / 10 ^ 16) + 1 / 10 ^ 20"
    by (rule round_float_bounds(2)) simp
  also have "\<dots> < (3 / 100 + 1 / 10 ^ 15) * (1 - 2 / 10 ^ 16) - 1 / 10 ^ 20"
    by simp
  also have "\<dots> \<le> d - d * (2 / 10 ^ 16) - 1 / 10 ^ 20"
    using assms by (rule scale_up)
  also have "\<dots> \<le> round_float d"
    using d by (rule round_float_bounds(1))
  finally show ?thesis by simp
qed

lemma below_three:
  assumes "0 \<le> d" "d \<le> 3 / 100 - 1 / 10 ^ 15"
  shows "round_float d \<le> round_float (3 / 100)"
proof -
  have "round_float d \<le> d + d * (2 / 10 ^ 16) + 1 / 10 ^ 20"
    using assms(1) by (rule round_float_bounds(2))
  also have "\<dots> \<le> (3 / 100 - 1 / 10 ^ 15) * (1 + 2 / 10 ^ 16) + 1 / 10 ^ 20"
    using assms(2) by (rule scale_down)
  also have "\<dots> \<le> 3 / 100 - (3 / 100) * (2 / 10 ^ 16) - 1 / 10 ^ 20"
    by simp
  also have "\<dots> \<le> round_float (3 / 100)"
    by (rule round_float_bounds(1)) simp
  finally show ?thesis .
qed

text \<open>
  Claim C8, as the code has it. The spread of a sequence is the float difference of its
  largest and its smallest percentage, and the two thresholds are the floats 0.05 and
  0.03. Fewer than two percentages give insufficient data. For a sequence of at least four
  percentages the result is increasing exactly when the sequence is non-decreasing and its
  spread exceeds 0.05, decreasing exactly when it is non-increasing and the spread exceeds
  0.05, stable exactly when the spread is at most 0.03, and oscillating in every other
  case. For a sequence of two or three percentages only the first and the last are
  compared: the result is rising when the last is the larger and their float difference
  exceeds 0.05, falling when the first is the larger and their float difference exceeds
  0.05, and stable otherwise. The float tests agree
  with the exact ones away from the boundary: an exact spread of at least 5/100 plus
  1/10^15 exceeds 0.05 and one of at most 5/100 less 1/10^15 does not; an exact spread of
  at most 3/100 less 1/10^15 is at most 0.03 and one of at least 3/100 plus 1/10^15 is
  not.
\<close>

theorem determine_ball_trend_classes:
  "(length ps < 2 \<longrightarrow> determine_ball_trend ps = Insufficient_data)
   \<and> (4 \<le> length ps \<longrightarrow>
      (determine_ball_trend ps = Increasing
         \<longleftrightarrow> sorted ps \<and> round_float (Max (set ps) - Min (set ps)) > round_float (5 / 100))
    \<and> (determine_ball_trend ps = Decreasing
         \<longleftrightarrow> sorted (rev ps)
           \<and> round_float (Max (set ps) - Min (set ps)) > round_float (5 / 100))
    \<and> (determine_ball_trend ps = Stable
         \<longleftrightarrow> round_float (Max (set ps) - Min (set ps)) \<le> round_float (3 / 100))
    \<and> (determine_ball_trend ps = Oscillating
         \<longleftrightarrow> \<not> (sorted ps \<and> round_float (Max (set ps) - Min (set ps)) > round_float (5 / 100))
           \<and> \<not> (sorted (rev ps)
                \<and> round_float (Max (set ps) - Min (set ps)) > round_float (5 / 100))
           \<and> \<not> round_float (Max (set ps) - Min (set ps)) \<le> round_float (3 / 100)))
   \<and> (2 \<le> length ps \<and> length ps < 4 \<longrightarrow>
      (determine_ball_trend ps = Rising
         \<longleftrightarrow> hd ps < last ps \<and> round_float (last ps - hd ps) > round_float (5 / 100))
    \<and> (determine_ball_trend ps = Falling
         \<longleftrightarrow> last ps < hd ps \<and> round_float (hd ps - last ps) > round_float (5 / 100))
    \<and> (determine_ball_trend ps = Stable
         \<longleftrightarrow> \<not> (hd ps < last ps \<and> round_float (last ps - hd ps) > round_float (5 / 100))
           \<and> \<not> (last ps < hd ps \<and> round_float (hd ps - last ps) > round_float (5 / 100))))
   \<and> (ps \<noteq> [] \<and> 5 / 100 + 1 / 10 ^ 15 \<le> Max (set ps) - Min (set ps) \<longrightarrow>
        round_float (Max (set ps) - Min (set ps)) > round_float (5 / 100))
   \<and> (ps \<noteq> [] \<and> Max (set ps) - Min (set ps) \<le> 5 / 100 - 1 / 10 ^ 15 \<longrightarrow>
        \<not> round_float (Max (set ps) - Min (set ps)) > round_float (5 / 100))
   \<and> (ps \<noteq> [] \<and> Max (set ps) - Min (set ps) \<le> 3 / 100 - 1 / 10 ^ 15 \<longrightarrow>
        round_float (Max (set ps) - Min (set ps)) \<le> round_float (3 / 100))
   \<and> (ps \<noteq> [] \<and> 3 / 100 + 1 / 10 ^ 15 \<le> Max (set ps) - Min (set ps) \<longrightarrow>
        \<not> round_float (Max (set ps) - Min (set ps)) \<le> round_float (3 / 100))"
proof -
  let ?D = "round_float (Max (set ps) - Min (set ps))"
  let ?T5 = "round_float (5 / 100)"
  let ?T3 = "round_float (3 / 100)"
  have few: "length ps < 2 \<longrightarrow> determine_ball_trend ps = Insufficient_data"
    by (simp add: determine_ball_trend_def)
  have four: "(determine_ball_trend ps = Increasing \<longleftrightarrow> sorted ps \<and> ?D > ?T5)
    \<and> (determine_ball_trend ps = Decreasing \<longleftrightarrow> sorted (rev ps) \<and> ?D > ?T5)
    \<and> (determine_ball_trend ps = Stable \<longleftrightarrow> ?D \<le> ?T3)
    \<and> (determine_ball_trend ps = Oscillating
         \<longleftrightarrow> \<not> (sorted ps \<and> ?D > ?T5) \<and> \<not> (sorted (rev ps) \<and> ?D > ?T5) \<and> \<not> ?D \<le> ?T3)"
    if len: "4 \<le> length ps"
  proof -
    from len have ne: "ps \<noteq> []" by auto
    have const: "\<not> ?D > ?T5" if "sorted ps" "sorted (rev ps)"
      using both_sorted_const [OF that ne] threshold_floats(2) by (simp add: round_float_zero)
    have low: "\<not> ?D > ?T5" if "?D \<le> ?T3"
      using that threshold_floats(1) by simp
    have unfold: "determine_ball_trend ps =
        (if sorted ps \<and> ?D > ?T5 then Increasing
         else if sorted (rev ps) \<and> ?D > ?T5 then Decreasing
         else if ?D \<le> ?T3 then Stable
         else Oscillating)"
      using len ne
      by (simp add: determine_ball_trend_def Let_def adjacent_all_sorted adjacent_all_sorted_rev)
    show ?thesis
      unfolding unfold using const low by auto
  qed
  have two: "(determine_ball_trend ps = Rising
         \<longleftrightarrow> hd ps < last ps \<and> round_float (last ps - hd ps) > ?T5)
    \<and> (determine_ball_trend ps = Falling
         \<longleftrightarrow> last ps < hd ps \<and> round_float (hd ps - last ps) > ?T5)
    \<and> (determine_ball_trend ps = Stable
         \<longleftrightarrow> \<not> (hd ps < last ps \<and> round_float (last ps - hd ps) > ?T5)
           \<and> \<not> (last ps < hd ps \<and> round_float (hd ps - last ps) > ?T5))"
    if len: "2 \<le> length ps \<and> length ps < 4"
  proof -
    have unfold: "determine_ball_trend ps =
        (if hd ps < last ps \<and> round_float (last ps - hd ps) > ?T5 then Rising
         else if hd ps > last ps \<and> round_float (hd ps - last ps) > ?T5 then Falling
         else Stable)"
      using len by (simp add: determine_ball_trend_def)
    show ?thesis
      unfolding unfold by auto
  qed
  have b1: "ps \<noteq> [] \<and> 5 / 100 + 1 / 10 ^ 15 \<le> Max (set ps) - Min (set ps) \<longrightarrow> ?D > ?T5"
    using above_five by blast
  have b2: "ps \<noteq> [] \<and> Max (set ps) - Min (set ps) \<le> 5 / 100 - 1 / 10 ^ 15 \<longrightarrow> \<not> ?D > ?T5"
    using below_five spread_nonneg by blast
  have b3: "ps \<noteq> [] \<and> Max (set ps) - Min (set ps) \<le> 3 / 100 - 1 / 10 ^ 15 \<longrightarrow> ?D \<le> ?T3"
    using below_three spread_nonneg by blast
  have b4: "ps \<noteq> [] \<and> 3 / 100 + 1 / 10 ^ 15 \<le> Max (set ps) - Min (set ps) \<longrightarrow> \<not> ?D \<le> ?T3"
    using above_three by blast
  show ?thesis
    using few four two b1 b2 b3 b4 by (intro conjI impI) blast+
qed

theorem determine_ball_trend_classes_witness:
  "determine_ball_trend [] = Insufficient_data
   \<and> determine_ball_trend [1 / 10] = Insufficient_data
   \<and> determine_ball_trend spread_five_percent = Increasing
   \<and> determine_ball_trend (rev spread_five_percent) = Decreasing
   \<and> determine_ball_trend spread_three_percent = Oscillating
   \<and> determine_ball_trend [1 / 4, 1 / 4, 1 / 4, 1 / 4] = Stable
   \<and> determine_ball_trend pair_five_percent = Rising
   \<and> determine_ball_trend (rev pair_five_percent) = Falling
   \<and> determine_ball_trend [1 / 4, 1 / 4] = Stable
   \<and> determine_ball_trend [1 / 8, 1 / 2, 1 / 4] = Rising"
proof -
  have a0: "determine_ball_trend [] = Insufficient_data"
    using determine_ball_trend_classes [of "[]"] by simp
  have a1: "determine_ball_trend [1 / 10] = Insufficient_data"
    using determine_ball_trend_classes [of "[1 / 10]"] by simp
  have l4: "4 \<le> length spread_five_percent" "4 \<le> length (rev spread_five_percent)"
    "4 \<le> length spread_three_percent"
    by (simp_all add: spread_five_percent_def spread_three_percent_def)
  have l2: "2 \<le> length pair_five_percent \<and> length pair_five_percent < 4"
    "2 \<le> length (rev pair_five_percent) \<and> length (rev pair_five_percent) < 4"
    by (simp_all add: pair_five_percent_def)
  have h1: "sorted spread_five_percent
      \<and> round_float (Max (set spread_five_percent) - Min (set spread_five_percent))
          > round_float (5 / 100)"
    by code_simp
  have h2: "sorted (rev (rev spread_five_percent))
      \<and> round_float (Max (set (rev spread_five_percent)) - Min (set (rev spread_five_percent)))
          > round_float (5 / 100)"
    by code_simp
  have h3: "\<not> (sorted spread_three_percent
        \<and> round_float (Max (set spread_three_percent) - Min (set spread_three_percent))
            > round_float (5 / 100))
      \<and> \<not> (sorted (rev spread_three_percent)
        \<and> round_float (Max (set spread_three_percent) - Min (set spread_three_percent))
            > round_float (5 / 100))
      \<and> \<not> round_float (Max (set spread_three_percent) - Min (set spread_three_percent))
            \<le> round_float (3 / 100)"
    by code_simp
  have h4: "round_float (Max (set [1 / 4, 1 / 4, 1 / 4, 1 / 4]) - Min (set [1 / 4, 1 / 4, 1 / 4, 1 / 4]))
      \<le> round_float (3 / 100)"
    by code_simp
  have h5: "hd pair_five_percent < last pair_five_percent
      \<and> round_float (last pair_five_percent - hd pair_five_percent) > round_float (5 / 100)"
    by code_simp
  have h6: "last (rev pair_five_percent) < hd (rev pair_five_percent)
      \<and> round_float (hd (rev pair_five_percent) - last (rev pair_five_percent))
          > round_float (5 / 100)"
    by code_simp
  have h7: "\<not> (hd [1 / 4, 1 / 4 :: rat] < last [1 / 4, 1 / 4 :: rat]
        \<and> round_float (last [1 / 4, 1 / 4] - hd [1 / 4, 1 / 4]) > round_float (5 / 100))
      \<and> \<not> (last [1 / 4, 1 / 4 :: rat] < hd [1 / 4, 1 / 4 :: rat]
        \<and> round_float (hd [1 / 4, 1 / 4] - last [1 / 4, 1 / 4]) > round_float (5 / 100))"
    by simp
  have a2: "determine_ball_trend spread_five_percent = Increasing"
    using determine_ball_trend_classes [of spread_five_percent] l4 h1 by blast
  have a3: "determine_ball_trend (rev spread_five_percent) = Decreasing"
    using determine_ball_trend_classes [of "rev spread_five_percent"] l4 h2 by blast
  have a4: "determine_ball_trend spread_three_percent = Oscillating"
    using determine_ball_trend_classes [of spread_three_percent] l4 h3 by blast
  have a5: "determine_ball_trend [1 / 4, 1 / 4, 1 / 4, 1 / 4] = Stable"
    using determine_ball_trend_classes [of "[1 / 4, 1 / 4, 1 / 4, 1 / 4]"] h4 by simp
  have a6: "determine_ball_trend pair_five_percent = Rising"
    using determine_ball_trend_classes [of pair_five_percent] l2 h5 by blast
  have a7: "determine_ball_trend (rev pair_five_percent) = Falling"
    using determine_ball_trend_classes [of "rev pair_five_percent"] l2 h6 by blast
  have a8: "determine_ball_trend [1 / 4, 1 / 4] = Stable"
    using determine_ball_trend_classes [of "[1 / 4, 1 / 4]"] h7 by simp
  have h9: "hd [1 / 8, 1 / 2, 1 / 4 :: rat] < last [1 / 8, 1 / 2, 1 / 4 :: rat]
      \<and> round_float (last [1 / 8, 1 / 2, 1 / 4] - hd [1 / 8, 1 / 2, 1 / 4]) > round_float (5 / 100)"
    by code_simp
  have l3: "2 \<le> length [1 / 8, 1 / 2, 1 / 4 :: rat] \<and> length [1 / 8, 1 / 2, 1 / 4 :: rat] < 4"
    by simp
  have a9: "determine_ball_trend [1 / 8, 1 / 2, 1 / 4] = Rising"
    using determine_ball_trend_classes [of "[1 / 8, 1 / 2, 1 / 4]"] l3 h9 by blast
  show ?thesis
    using a0 a1 a2 a3 a4 a5 a6 a7 a8 a9 by (intro conjI)
qed

text \<open>
  The claim as written fails on short sequences: two percentages that rise by 0.1 are
  classified rising, not increasing, although the sequence is non-decreasing and its
  spread exceeds 0.05; and two percentages with a spread of 0.04, above the 0.03 cutoff,
  are classified stable.
\<close>

theorem determine_ball_trend_short_counterexample:
  "determine_ball_trend [0, round_float (1 / 10)] = Rising
   \<and> sorted [0, round_float (1 / 10)]
   \<and> round_float (Max (set [0, round_float (1 / 10)]) - Min (set [0, round_float (1 / 10)]))
       > round_float (5 / 100)
   \<and> determine_ball_trend [0, round_float (1 / 25)] = Stable
   \<and> \<not> round_float (Max (set [0, round_float (1 / 25)]) - Min (set [0, round_float (1 / 25)]))
       \<le> round_float (3 / 100)"
  by code_simp

subsection \<open>Repeat statistics\<close>

lemma py_div_ok: "b \<noteq> 0 \<Longrightarrow> py_div a b = Inr (round_float (a / b))"
  by (simp add: py_div_def)

lemma bind_err_Inr: "bind_err (Inr x) f = f x"
  by (simp add: bind_err_def)

lemma div_items_ok:
  "0 < n \<Longrightarrow>
   div_items xs n = Inr (map (\<lambda>(red, c). (red, round_float (of_nat c / of_nat n))) xs)"
  by (induction xs n rule: div_items.induct) (simp_all add: py_div_ok bind_err_Inr)

lemma calculate_current_predictions_ok:
  "\<exists>p. calculate_current_predictions current_record period_data = Inr p"
  by (simp add: calculate_current_predictions_def Let_def py_div_ok bind_err_Inr div_items_ok)

lemma fill_distribution_ok:
  "pairs \<noteq> 0 \<Longrightarrow>
   fill_distribution rc pairs ks d
     = Inr (fold (\<lambda>k d'. AList.update k (round_float (of_nat (count_list rc k) / of_int pairs)) d')
              ks d)"
  by (induction ks arbitrary: d) (simp_all add: py_div_ok bind_err_Inr)

lemma update_fresh: "k \<notin> fst ` set d \<Longrightarrow> AList.update k v d = d @ [(k, v)]"
  by (induction d) auto

lemma fold_update_fresh:
  "distinct ks \<Longrightarrow> set ks \<inter> fst ` set d = {} \<Longrightarrow>
   fold (\<lambda>k d'. AList.update k (f k) d') ks d = d @ map (\<lambda>k. (k, f k)) ks"
proof (induction ks arbitrary: d)
  case Nil
  show ?case by simp
next
  case (Cons k ks)
  from Cons.prems have fresh: "k \<notin> fst ` set d" by auto
  from Cons.prems have "set ks \<inter> fst ` set (d @ [(k, f k)]) = {}" by auto
  with Cons.prems Cons.IH [of "d @ [(k, f k)]"] show ?case
    by (simp add: update_fresh [OF fresh])
qed

lemma repeat_count_le: "repeat_count a b \<le> 6"
proof -
  have "card (set (reds a) \<inter> set (reds b)) \<le> card (set (reds a))"
    by (intro card_mono) auto
  also have "\<dots> \<le> length (reds a)"
    by (rule card_length)
  also have "\<dots> = 6"
    by (simp add: reds_def)
  finally show ?thesis
    by (simp add: repeat_count_def)
qed

lemma sum_counts_below:
  assumes "\<forall>x\<in>set xs. x < m"
  shows "(\<Sum>k\<leftarrow>[0..<m]. count_list xs k) = length xs"
proof -
  have "(\<Sum>k\<leftarrow>[0..<m]. count_list xs k) = sum (count_list xs) {0..<m}"
    by (simp add: sum_list_distinct_conv_sum_set)
  also have "\<dots> = length xs"
    using assms by (intro sum_count_set) auto
  finally show ?thesis .
qed

lemma sum_list_ratio:
  "(\<Sum>k\<leftarrow>ks. (of_nat (g k) / c :: rat)) = of_nat (\<Sum>k\<leftarrow>ks. g k) / c"
  by (induction ks) (simp_all add: add_divide_distrib)

lemma count_list_map_upt:
  "count_list (map f [0..<n]) k = card {i. i < n \<and> f i = k}"
proof -
  have "filter (\<lambda>x. k = f x) [0..<n] = filter (\<lambda>i. f i = k) [0..<n]"
    by (rule filter_cong) auto
  then have "count_list (map f [0..<n]) k = length (filter (\<lambda>i. f i = k) [0..<n])"
    by (simp add: count_list_eq_length_filter filter_map comp_def)
  also have "\<dots> = card (set (filter (\<lambda>i. f i = k) [0..<n]))"
    by (rule distinct_card [symmetric]) simp
  also have "set (filter (\<lambda>i. f i = k) [0..<n]) = {i. i < n \<and> f i = k}"
    by auto
  finally show ?thesis .
qed

lemma slice_from_neg:
  "slice_from (- k) xs = (if 0 < k then drop (length xs - nat k) xs else drop (nat (min (- k) (int (length xs)))) xs)"
  by (auto simp: slice_from_def Let_def max_def min_def nat_diff_distrib intro: arg_cong2 [where f = drop])

lemma float_sum_below_one:
  "float_sum (map (\<lambda>c. round_float (c / 29)) [3, 5, 6, 1, 0, 9, 5])
     = 9007199254740991 / 9007199254740992"
  by code_simp

text \<open>
  Claim C6. For a window of at least two draws (under a window name of the table) the
  statistics are computed without error, the number of pairs is the number of draws less
  one, and the distribution has exactly the buckets 0 to 6. Each bucket is the float
  nearest to its exact probability, the number of neighbouring pairs of draws that share
  exactly that many red balls divided by the number of pairs. The seven exact
  probabilities add up to 1, and the seven floats add up to 1 within 1/10^9, both when
  added exactly and when added as floats, one after the other.
\<close>

theorem repeat_distribution_normalized:
  assumes two: "2 \<le> length period_data"
    and cfg: "map_of window_config name = Some limit"
  shows "\<exists>stats. calculate_window_repeat_stats window_config name current_record period_data
            = Inr stats
     \<and> total_pairs stats = int (length period_data) - 1
     \<and> map fst (repeat_distribution stats) = [0..<7]
     \<and> (\<forall>k\<in>{0..<7}. map_of (repeat_distribution stats) k
           = Some (round_float
               (of_nat (card {i. i + 1 < length period_data
                     \<and> card (set (reds (period_data ! i)) \<inter> set (reds (period_data ! (i + 1)))) = k})
                / of_nat (length period_data - 1))))
     \<and> (\<Sum>k\<leftarrow>[0..<7].
           (of_nat (card {i. i + 1 < length period_data
                     \<and> card (set (reds (period_data ! i)) \<inter> set (reds (period_data ! (i + 1)))) = k})
              / of_nat (length period_data - 1) :: rat)) = 1
     \<and> \<bar>sum_list (map snd (repeat_distribution stats)) - 1\<bar> \<le> 1 / 10 ^ 9
     \<and> \<bar>float_sum (map snd (repeat_distribution stats)) - 1\<bar> \<le> 1 / 10 ^ 9"
proof -
  let ?n = "length period_data - 1"
  let ?rc = "map (\<lambda>i. repeat_count (period_data ! i) (period_data ! (i + 1))) [0..<?n]"
  let ?q = "\<lambda>k. (of_nat (count_list ?rc k) / of_nat ?n :: rat)"
  let ?p = "\<lambda>k. round_float (?q k)"
  let ?d = "map (\<lambda>k. (k, ?p k)) [0..<7]"
  let ?card = "\<lambda>k. card {i. i + 1 < length period_data
        \<and> card (set (reds (period_data ! i)) \<inter> set (reds (period_data ! (i + 1)))) = k}"
  have pos: "int (length period_data) - 1 > 0" and n: "?n > 0"
    using two by simp_all
  have int_n: "of_int (int (length period_data) - 1) = (of_nat ?n :: rat)"
    using two by simp
  have nz: "(of_int (int (length period_data) - 1) :: rat) \<noteq> 0"
    using two by simp
  have fill: "fill_distribution ?rc (int (length period_data) - 1) [0..<7] [] = Inr ?d"
    using pos fold_update_fresh [of "[0..<7]" "[]" ?p]
    by (simp add: fill_distribution_ok int_n del: upt.simps)
  obtain preds where preds: "calculate_current_predictions current_record period_data = Inr preds"
    using calculate_current_predictions_ok by blast
  let ?stats = "\<lparr>window_name = name, period_limit = limit,
       effective_periods = length period_data, total_pairs = int (length period_data) - 1,
       repeat_distribution = ?d,
       blue_repeat_probability =
         round_float
           (of_nat (sum_list (map (\<lambda>i. blue_repeat (period_data ! i) (period_data ! (i + 1))) [0..<?n]))
              / of_int (int (length period_data) - 1)),
       current_predictions = preds\<rparr>"
  have res: "calculate_window_repeat_stats window_config name current_record period_data
      = Inr ?stats"
    unfolding calculate_window_repeat_stats_def Let_def pair_indices_def
    using pos by (simp only: if_True fill bind_err_Inr preds cfg option.case py_div_ok [OF nz])
  have keys: "map fst ?d = [0..<7]"
    by (simp add: comp_def del: upt.simps)
  have count: "count_list ?rc k = ?card k" for k
    by (simp add: count_list_map_upt repeat_count_def less_diff_conv)
  have entry: "map_of ?d k = Some (round_float (of_nat (?card k) / of_nat ?n))"
    if "k \<in> {0..<7}" for k
  proof -
    have "map_of ?d k = Some (?p k)"
      using that by (simp add: map_of_map_restrict del: upt.simps)
    then show ?thesis
      by (simp only: count)
  qed
  have "repeat_count a b < 7" for a b
    using repeat_count_le [of a b] by simp
  then have "\<forall>x\<in>set ?rc. x < 7"
    by auto
  then have total: "(\<Sum>k\<leftarrow>[0..<7]. count_list ?rc k) = ?n"
    using sum_counts_below [of ?rc 7] by simp
  have "(\<Sum>k\<leftarrow>[0..<7]. ?q k) = of_nat (\<Sum>k\<leftarrow>[0..<7]. count_list ?rc k) / of_nat ?n"
    by (rule sum_list_ratio)
  also have "\<dots> = 1"
    using n by (simp only: total) simp
  finally have exact: "(\<Sum>k\<leftarrow>[0..<7]. ?q k) = 1" .
  then have exact': "(\<Sum>k\<leftarrow>[0..<7]. (of_nat (?card k) / of_nat ?n :: rat)) = 1"
    by (simp only: count)
  have close: "list_all2 (\<lambda>v q. 0 \<le> q \<and> \<bar>v - q\<bar> \<le> q * (1 / 2 ^ 53) + 1 / 2 ^ 100)
      (map snd ?d) (map ?q [0..<7])"
  proof -
    have "0 \<le> ?q k \<and> \<bar>?p k - ?q k\<bar> \<le> ?q k * (1 / 2 ^ 53) + 1 / 2 ^ 100" for k
      using round_float_error_small [of "?q k"] by simp
    then show ?thesis
      by (simp add: list_all2_map1 list_all2_map2 list_all2_same comp_def del: upt.simps)
  qed
  have len: "length (map snd ?d) = 7"
    by simp
  have "\<bar>sum_list (map snd ?d) - sum_list (map ?q [0..<7])\<bar>
      \<le> sum_list (map ?q [0..<7]) * (1 / 2 ^ 53) + of_nat (length (map snd ?d)) * (1 / 2 ^ 100)"
    using close by (rule sum_rounded_error)
  then have "\<bar>sum_list (map snd ?d) - 1\<bar> \<le> 1 * (1 / 2 ^ 53) + 7 * (1 / 2 ^ 100)"
    by (simp only: exact len of_nat_numeral)
  moreover have "1 * (1 / 2 ^ 53) + 7 * (1 / 2 ^ 100) \<le> (1::rat) / 10 ^ 9"
    by simp
  ultimately have near: "\<bar>sum_list (map snd ?d) - 1\<bar> \<le> 1 / 10 ^ 9"
    by (rule order_trans)
  have "\<bar>fold (\<lambda>x acc. round_float (acc + x)) (map snd ?d) 0 - (0 + sum_list (map ?q [0..<7]))\<bar>
      \<le> 0 + of_nat (length (map snd ?d)) * (5 * (1 / 2 ^ 53) + 2 * (1 / 2 ^ 100))"
  proof (rule fold_rounded_error [OF _ _ _ _ _ close])
    show "\<bar>round_float z - z\<bar> \<le> \<bar>z\<bar> * (1 / 2 ^ 53) + 1 / 2 ^ 100" for z
      by (rule round_float_error_small)
    show "(0::rat) \<le> 1 / 2 ^ 53" "(1::rat) / 2 ^ 53 \<le> 1" "(0::rat) \<le> 1 / 2 ^ 100"
      "(1::rat) / 2 ^ 100 \<le> 1"
      by simp_all
    show "\<bar>0 - 0 :: rat\<bar> \<le> 0" "(0::rat) \<le> 0"
      by simp_all
    show "0 + sum_list (map ?q [0..<7]) \<le> 1"
      unfolding exact by simp
    show "0 + of_nat (length (map snd ?d)) * (5 * (1 / 2 ^ 53) + 2 * (1 / 2 ^ 100)) \<le> (1::rat)"
      unfolding len by simp
  qed
  then have "\<bar>float_sum (map snd ?d) - 1\<bar> \<le> 7 * (5 * (1 / 2 ^ 53) + 2 * (1 / 2 ^ 100))"
    by (simp only: exact len of_nat_numeral float_sum_def add_0)
  moreover have "7 * (5 * (1 / 2 ^ 53) + 2 * (1 / 2 ^ 100)) \<le> (1::rat) / 10 ^ 9"
    by simp
  ultimately have fnear: "\<bar>float_sum (map snd ?d) - 1\<bar> \<le> 1 / 10 ^ 9"
    by (rule order_trans)
  have P: "total_pairs ?stats = int (length period_data) - 1
     \<and> map fst (repeat_distribution ?stats) = [0..<7]
     \<and> (\<forall>k\<in>{0..<7}. map_of (repeat_distribution ?stats) k
           = Some (round_float (of_nat (?card k) / of_nat ?n)))
     \<and> (\<Sum>k\<leftarrow>[0..<7]. (of_nat (?card k) / of_nat ?n :: rat)) = 1
     \<and> \<bar>sum_list (map snd (repeat_distribution ?stats)) - 1\<bar> \<le> 1 / 10 ^ 9
     \<and> \<bar>float_sum (map snd (repeat_distribution ?stats)) - 1\<bar> \<le> 1 / 10 ^ 9"
    using keys entry exact' near fnear by (simp del: upt.simps)
  show ?thesis
    using res P by (intro exI [of _ ?stats] conjI) blast+
qed

theorem repeat_distribution_normalized_witness:
  "(\<exists>stats. calculate_window_repeat_stats small_windows ''all_history'' draw_7_to_12
            [draw_1_to_6, draw_4_to_9, draw_7_to_12] = Inr stats
     \<and> total_pairs stats = 2
     \<and> repeat_distribution stats = [(0, 0), (1, 0), (2, 0), (3, 1), (4, 0), (5, 0), (6, 0)]
     \<and> \<bar>sum_list (map snd (repeat_distribution stats)) - 1\<bar> \<le> 1 / 10 ^ 9
     \<and> \<bar>float_sum (map snd (repeat_distribution stats)) - 1\<bar> \<le> 1 / 10 ^ 9)
   \<and> (\<exists>stats. calculate_window_repeat_stats small_windows ''all_history'' draw_1_to_6
            seven_draws = Inr stats
     \<and> total_pairs stats = 6
     \<and> repeat_distribution stats
         = [(0, 6004799503160661 / 9007199254740992), (1, 0), (2, 0),
            (3, 6004799503160661 / 36028797018963968), (4, 0), (5, 0),
            (6, 6004799503160661 / 36028797018963968)]
     \<and> sum_list (map snd (repeat_distribution stats))
         = 18014398509481983 / 18014398509481984
     \<and> float_sum (map snd (repeat_distribution stats))
         = 9007199254740991 / 9007199254740992
     \<and> \<bar>sum_list (map snd (repeat_distribution stats)) - 1\<bar> \<le> 1 / 10 ^ 9
     \<and> \<bar>float_sum (map snd (repeat_distribution stats)) - 1\<bar> \<le> 1 / 10 ^ 9)"
proof -
  have two: "2 \<le> length [draw_1_to_6, draw_4_to_9, draw_7_to_12]" by simp
  have cfg: "map_of small_windows ''all_history'' = Some None"
    by (simp add: small_windows_def)
  from repeat_distribution_normalized [OF two cfg, of draw_7_to_12]
  obtain stats where
    s: "calculate_window_repeat_stats small_windows ''all_history'' draw_7_to_12
          [draw_1_to_6, draw_4_to_9, draw_7_to_12] = Inr stats"
    and t: "total_pairs stats = int (length [draw_1_to_6, draw_4_to_9, draw_7_to_12]) - 1"
    and near: "\<bar>sum_list (map snd (repeat_distribution stats)) - 1\<bar> \<le> 1 / 10 ^ 9"
    and fnear: "\<bar>float_sum (map snd (repeat_distribution stats)) - 1\<bar> \<le> 1 / 10 ^ 9"
    by blast
  have "(case calculate_window_repeat_stats small_windows ''all_history'' draw_7_to_12
               [draw_1_to_6, draw_4_to_9, draw_7_to_12] of
           Inl e \<Rightarrow> False
         | Inr st \<Rightarrow> repeat_distribution st
             = [(0, 0), (1, 0), (2, 0), (3, 1), (4, 0), (5, 0), (6, 0)])"
    by code_simp
  with s have d: "repeat_distribution stats
      = [(0, 0), (1, 0), (2, 0), (3, 1), (4, 0), (5, 0), (6, 0)]"
    by simp
  have t': "total_pairs stats = 2"
    using t by simp
  have three: "\<exists>stats. calculate_window_repeat_stats small_windows ''all_history'' draw_7_to_12
            [draw_1_to_6, draw_4_to_9, draw_7_to_12] = Inr stats
     \<and> total_pairs stats = 2
     \<and> repeat_distribution stats = [(0, 0), (1, 0), (2, 0), (3, 1), (4, 0), (5, 0), (6, 0)]
     \<and> \<bar>sum_list (map snd (repeat_distribution stats)) - 1\<bar> \<le> 1 / 10 ^ 9
     \<and> \<bar>float_sum (map snd (repeat_distribution stats)) - 1\<bar> \<le> 1 / 10 ^ 9"
    using s t' d near fnear by (intro exI [of _ stats] conjI)
  have two': "2 \<le> length seven_draws"
    by (simp add: seven_draws_def)
  from repeat_distribution_normalized [OF two' cfg, of draw_1_to_6]
  obtain stats' where
    s': "calculate_window_repeat_stats small_windows ''all_history'' draw_1_to_6 seven_draws
          = Inr stats'"
    and u: "total_pairs stats' = int (length seven_draws) - 1"
    and near': "\<bar>sum_list (map snd (repeat_distribution stats')) - 1\<bar> \<le> 1 / 10 ^ 9"
    and fnear': "\<bar>float_sum (map snd (repeat_distribution stats')) - 1\<bar> \<le> 1 / 10 ^ 9"
    by blast
  have "(case calculate_window_repeat_stats small_windows ''all_history'' draw_1_to_6
               seven_draws of
           Inl e \<Rightarrow> False
         | Inr st \<Rightarrow> repeat_distribution st
             = [(0, 6004799503160661 / 9007199254740992), (1, 0), (2, 0),
                (3, 6004799503160661 / 36028797018963968), (4, 0), (5, 0),
                (6, 6004799503160661 / 36028797018963968)])"
    by code_simp
  with s' have d': "repeat_distribution stats'
      = [(0, 6004799503160661 / 9007199254740992), (1, 0), (2, 0),
         (3, 6004799503160661 / 36028797018963968), (4, 0), (5, 0),
         (6, 6004799503160661 / 36028797018963968)]"
    by simp
  have u': "total_pairs stats' = 6"
    using u by (simp add: seven_draws_def)
  have e1: "sum_list (map snd (repeat_distribution stats'))
      = 18014398509481983 / 18014398509481984"
    unfolding d' by simp
  have e2: "float_sum (map snd (repeat_distribution stats'))
      = 9007199254740991 / 9007199254740992"
    unfolding d' by code_simp
  have seven: "\<exists>stats. calculate_window_repeat_stats small_windows ''all_history'' draw_1_to_6
            seven_draws = Inr stats
     \<and> total_pairs stats = 6
     \<and> repeat_distribution stats
         = [(0, 6004799503160661 / 9007199254740992), (1, 0), (2, 0),
            (3, 6004799503160661 / 36028797018963968), (4, 0), (5, 0),
            (6, 6004799503160661 / 36028797018963968)]
     \<and> sum_list (map snd (repeat_distribution stats))
         = 18014398509481983 / 18014398509481984
     \<and> float_sum (map snd (repeat_distribution stats))
         = 9007199254740991 / 9007199254740992
     \<and> \<bar>sum_list (map snd (repeat_distribution stats)) - 1\<bar> \<le> 1 / 10 ^ 9
     \<and> \<bar>float_sum (map snd (repeat_distribution stats)) - 1\<bar> \<le> 1 / 10 ^ 9"
    using s' u' d' e1 e2 near' fnear' by (intro exI [of _ stats'] conjI)
  show ?thesis
    using three seven by (rule conjI)
qed

subsection \<open>Windows with fewer than two draws\<close>

lemma calculate_window_repeat_stats_ok:
  assumes cfg: "map_of window_config name = Some limit"
  shows "\<exists>stats. calculate_window_repeat_stats window_config name current_record period_data
            = Inr stats"
proof -
  obtain preds where preds: "calculate_current_predictions current_record period_data = Inr preds"
    using calculate_current_predictions_ok by blast
  show ?thesis
  proof (cases "int (length period_data) - 1 > 0")
    case True
    then have nz: "(of_int (int (length period_data) - 1) :: rat) \<noteq> 0" by simp
    from True have nz': "int (length period_data) - 1 \<noteq> 0" by simp
    show ?thesis
      unfolding calculate_window_repeat_stats_def Let_def
      using True
      by (simp only: if_True fill_distribution_ok [OF nz'] bind_err_Inr preds cfg option.case
          py_div_ok [OF nz]) blast
  next
    case False
    show ?thesis
      unfolding calculate_window_repeat_stats_def Let_def
      using False
      by (simp only: if_False bind_err_Inr preds cfg option.case) blast
  qed
qed

lemma analyze_single_window_cases:
  assumes cfg: "map_of window_config name = Some limit"
  shows "(length (window_period_data name limit all_records num_records) < 2 \<longrightarrow>
            analyze_single_window window_config name current_record all_records num_records
              = Inr None)
       \<and> (2 \<le> length (window_period_data name limit all_records num_records) \<longrightarrow>
            (\<exists>stats. calculate_window_repeat_stats window_config name current_record
                        (window_period_data name limit all_records num_records) = Inr stats
               \<and> analyze_single_window window_config name current_record all_records num_records
                   = Inr (Some stats)))"
proof -
  obtain stats where "calculate_window_repeat_stats window_config name current_record
      (window_period_data name limit all_records num_records) = Inr stats"
    using calculate_window_repeat_stats_ok [OF cfg] by blast
  then show ?thesis
    by (simp add: analyze_single_window_def cfg Let_def bind_err_Inr)
qed

lemma analyze_windows_acc:
  "\<exists>window_results.
     analyze_windows window_config current_record all_records num_records names acc
       = Inr window_results
     \<and> fst ` set window_results
         = fst ` set acc \<union> {name \<in> set names. window_has_data window_config all_records num_records name}
     \<and> (\<forall>name stats. map_of window_results name = Some stats \<longrightarrow>
           map_of acc name = Some stats
           \<or> (\<exists>limit. map_of window_config name = Some limit
                \<and> calculate_window_repeat_stats window_config name current_record
                     (window_period_data name limit all_records num_records) = Inr stats))"
proof (induction names arbitrary: acc)
  case Nil
  show ?case by simp
next
  case (Cons name names)
  show ?case
  proof (cases "map_of window_config name")
    case None
    with Cons.IH [of acc] show ?thesis
      by (auto simp: window_has_data_def)
  next
    case (Some limit)
    note single = analyze_single_window_cases [OF Some, of all_records num_records current_record]
    show ?thesis
    proof (cases "length (window_period_data name limit all_records num_records) < 2")
      case True
      with single have "analyze_single_window window_config name current_record all_records
          num_records = Inr None" by blast
      with Cons.IH [of acc] True Some show ?thesis
        by (auto simp: window_has_data_def bind_err_Inr)
    next
      case False
      with single obtain stats where
        calc: "calculate_window_repeat_stats window_config name current_record
                 (window_period_data name limit all_records num_records) = Inr stats"
        and one: "analyze_single_window window_config name current_record all_records
                 num_records = Inr (Some stats)"
        by auto
      from Cons.IH [of "AList.update name stats acc"] obtain wr where
        wr: "analyze_windows window_config current_record all_records num_records names
               (AList.update name stats acc) = Inr wr"
        and keys: "fst ` set wr = fst ` set (AList.update name stats acc)
               \<union> {name \<in> set names. window_has_data window_config all_records num_records name}"
        and vals: "\<forall>n s. map_of wr n = Some s \<longrightarrow>
           map_of (AList.update name stats acc) n = Some s
           \<or> (\<exists>limit. map_of window_config n = Some limit
                \<and> calculate_window_repeat_stats window_config n current_record
                     (window_period_data n limit all_records num_records) = Inr s)"
        by blast
      have run: "analyze_windows window_config current_record all_records num_records
          (name # names) acc = Inr wr"
        using Some one wr by (simp add: bind_err_Inr)
      have k: "fst ` set wr = fst ` set acc
          \<union> {n \<in> set (name # names). window_has_data window_config all_records num_records n}"
        using keys False Some by (auto simp: AList.dom_update window_has_data_def)
      have v: "map_of acc n = Some s
           \<or> (\<exists>limit. map_of window_config n = Some limit
                \<and> calculate_window_repeat_stats window_config n current_record
                     (window_period_data n limit all_records num_records) = Inr s)"
        if "map_of wr n = Some s" for n s
      proof -
        from vals that have "map_of (AList.update name stats acc) n = Some s
           \<or> (\<exists>limit. map_of window_config n = Some limit
                \<and> calculate_window_repeat_stats window_config n current_record
                     (window_period_data n limit all_records num_records) = Inr s)"
          by blast
        then show ?thesis
          using Some calc by (cases "n = name") (auto simp: AList.update_conv')
      qed
      from run k v show ?thesis by blast
    qed
  qed
qed

lemma newest_first: "get_all_records three_draws None = [draw_7_to_12, draw_4_to_9, draw_1_to_6]"
  by code_simp

text \<open>
  Claim C7. A window with fewer than two draws yields no result and no error: the
  single-window analysis returns \<open>None\<close> before any statistic is computed. The loop over
  the windows never raises; its result holds exactly the requested windows that the table
  has and that hold at least two draws, each with the statistics of its own draws, so the
  windows after a skipped one are still analysed. With fewer than two records in the
  store the whole analysis returns the empty result, which carries the error marker and
  no distribution. With two records or more and a current record, the analysis returns
  the combined result whose window analysis is the result of that loop over the history
  of the store. For every input the analysis returns a value.
\<close>

theorem insufficient_data_skipped:
  "(map_of window_config name = Some limit
      \<and> length (window_period_data name limit all_records num_records) < 2 \<longrightarrow>
      analyze_single_window window_config name current_record all_records num_records
        = Inr None)
   \<and> (\<exists>window_results.
        analyze_windows window_config current_record all_records num_records names []
          = Inr window_results
        \<and> fst ` set window_results
            = {n \<in> set names. window_has_data window_config all_records num_records n}
        \<and> (\<forall>n stats. map_of window_results n = Some stats \<longrightarrow>
              (\<exists>l. map_of window_config n = Some l
                 \<and> calculate_window_repeat_stats window_config n current_record
                      (window_period_data n l all_records num_records) = Inr stats)))
   \<and> (length (get_all_records table None) < 2 \<longrightarrow>
        analyze_current_period_probability window_config table (Some current_record) window_group
          = Inr (Empty_result (Some current_record)))
   \<and> (2 \<le> length (get_all_records table None) \<longrightarrow>
        (\<exists>window_results.
           analyze_windows window_config current_record (get_all_records table None)
             (int (length (get_all_records table None)))
             (case window_group of
                None \<Rightarrow> [''short_term'', ''medium_term'', ''long_term'', ''all_history'']
              | Some g \<Rightarrow> g) [] = Inr window_results
           \<and> analyze_current_period_probability window_config table (Some current_record)
                window_group = Inr (Combined window_results)))
   \<and> (\<exists>result. analyze_current_period_probability window_config table record_arg window_group
          = Inr result)"
proof (intro conjI)
  show "map_of window_config name = Some limit
      \<and> length (window_period_data name limit all_records num_records) < 2 \<longrightarrow>
      analyze_single_window window_config name current_record all_records num_records
        = Inr None"
    using analyze_single_window_cases by blast
  show "\<exists>window_results.
        analyze_windows window_config current_record all_records num_records names []
          = Inr window_results
        \<and> fst ` set window_results
            = {n \<in> set names. window_has_data window_config all_records num_records n}
        \<and> (\<forall>n stats. map_of window_results n = Some stats \<longrightarrow>
              (\<exists>l. map_of window_config n = Some l
                 \<and> calculate_window_repeat_stats window_config n current_record
                      (window_period_data n l all_records num_records) = Inr stats))"
    using analyze_windows_acc [of window_config current_record all_records num_records names "[]"]
    by simp
  show "length (get_all_records table None) < 2 \<longrightarrow>
        analyze_current_period_probability window_config table (Some current_record) window_group
          = Inr (Empty_result (Some current_record))"
    by (simp add: analyze_current_period_probability_def Let_def)
  show "2 \<le> length (get_all_records table None) \<longrightarrow>
        (\<exists>window_results.
           analyze_windows window_config current_record (get_all_records table None)
             (int (length (get_all_records table None)))
             (case window_group of
                None \<Rightarrow> [''short_term'', ''medium_term'', ''long_term'', ''all_history'']
              | Some g \<Rightarrow> g) [] = Inr window_results
           \<and> analyze_current_period_probability window_config table (Some current_record)
                window_group = Inr (Combined window_results))"
  proof
    assume two: "2 \<le> length (get_all_records table None)"
    obtain wr where wr: "analyze_windows window_config current_record (get_all_records table None)
        (int (length (get_all_records table None)))
        (case window_group of
           None \<Rightarrow> [''short_term'', ''medium_term'', ''long_term'', ''all_history'']
         | Some g \<Rightarrow> g) [] = Inr wr"
      using analyze_windows_acc by blast
    have "analyze_current_period_probability window_config table (Some current_record)
        window_group = Inr (Combined wr)"
      using two wr by (simp add: analyze_current_period_probability_def Let_def bind_err_Inr)
    with wr show "\<exists>window_results.
           analyze_windows window_config current_record (get_all_records table None)
             (int (length (get_all_records table None)))
             (case window_group of
                None \<Rightarrow> [''short_term'', ''medium_term'', ''long_term'', ''all_history'']
              | Some g \<Rightarrow> g) [] = Inr window_results
           \<and> analyze_current_period_probability window_config table (Some current_record)
                window_group = Inr (Combined window_results)"
      by blast
  qed
  show "\<exists>result. analyze_current_period_probability window_config table record_arg window_group
          = Inr result"
  proof (cases record_arg)
    case None
    then show ?thesis
      by (simp add: analyze_current_period_probability_def)
  next
    case (Some cur)
    obtain wr where "analyze_windows window_config cur (get_all_records table None)
        (int (length (get_all_records table None)))
        (case window_group of
           None \<Rightarrow> [''short_term'', ''medium_term'', ''long_term'', ''all_history'']
         | Some g \<Rightarrow> g) [] = Inr wr"
      using analyze_windows_acc by blast
    with Some show ?thesis
      by (simp add: analyze_current_period_probability_def Let_def bind_err_Inr)
  qed
qed

theorem insufficient_data_skipped_witness:
  "analyze_single_window small_windows ''short_term'' draw_7_to_12
      [draw_7_to_12, draw_4_to_9, draw_1_to_6] 3 = Inr None
   \<and> (\<exists>window_results.
        analyze_current_period_probability small_windows three_draws (Some draw_7_to_12) None
          = Inr (Combined window_results)
        \<and> fst ` set window_results = {''medium_term'', ''all_history''})
   \<and> analyze_current_period_probability small_windows [draw_1_to_6] (Some draw_1_to_6) None
        = Inr (Empty_result (Some draw_1_to_6))"
proof -
  let ?all = "[draw_7_to_12, draw_4_to_9, draw_1_to_6]"
  let ?names = "[''short_term'', ''medium_term'', ''long_term'', ''all_history'']"
  note inst = insufficient_data_skipped [where window_config = small_windows
      and name = "''short_term''" and limit = "Some 1" and all_records = ?all
      and num_records = 3 and current_record = draw_7_to_12
      and names = ?names and table = three_draws and window_group = None]
  note inst' = insufficient_data_skipped [where window_config = small_windows
      and table = "[draw_1_to_6]" and current_record = draw_1_to_6 and window_group = None]
  have cfg: "map_of small_windows ''short_term'' = Some (Some 1)"
    by (simp add: small_windows_def)
  have short: "length (window_period_data ''short_term'' (Some 1) ?all 3) < 2"
    by (simp add: window_period_data_def slice_from_def)
  have one: "length (get_all_records [draw_1_to_6] None) < 2"
    by (simp add: get_all_records_def)
  have three: "2 \<le> length (get_all_records three_draws None)"
    by (simp add: newest_first)
  have h1: "\<not> window_has_data small_windows ?all 3 ''short_term''"
    by (simp add: window_has_data_def small_windows_def window_period_data_def slice_from_def)
  have h2: "window_has_data small_windows ?all 3 ''medium_term''"
    by (simp add: window_has_data_def small_windows_def window_period_data_def slice_from_def)
  have h3: "\<not> window_has_data small_windows ?all 3 ''long_term''"
    by (simp add: window_has_data_def small_windows_def)
  have h4: "window_has_data small_windows ?all 3 ''all_history''"
    by (simp add: window_has_data_def small_windows_def window_period_data_def)
  have names: "{n \<in> set ?names. window_has_data small_windows ?all 3 n}
      = {''medium_term'', ''all_history''}"
    using h1 h2 h3 h4 by auto
  have a: "analyze_single_window small_windows ''short_term'' draw_7_to_12 ?all 3 = Inr None"
    by (rule inst [THEN conjunct1, THEN mp, OF conjI, OF cfg short])
  obtain wr where wr: "analyze_windows small_windows draw_7_to_12 ?all 3 ?names [] = Inr wr"
    and keys: "fst ` set wr = {n \<in> set ?names. window_has_data small_windows ?all 3 n}"
    using inst [THEN conjunct2, THEN conjunct1] by (elim exE conjE)
  obtain wr' where wr': "analyze_windows small_windows draw_7_to_12 (get_all_records three_draws None)
        (int (length (get_all_records three_draws None)))
        (case None of None \<Rightarrow> ?names | Some g \<Rightarrow> g) [] = Inr wr'"
    and combined: "analyze_current_period_probability small_windows three_draws
        (Some draw_7_to_12) None = Inr (Combined wr')"
    using inst [THEN conjunct2, THEN conjunct2, THEN conjunct2, THEN conjunct1, THEN mp, OF three]
    by (elim exE conjE)
  have same: "wr' = wr"
    using wr wr' by (simp add: newest_first)
  have keys': "fst ` set wr = {''medium_term'', ''all_history''}"
    by (rule trans [OF keys names])
  have b: "\<exists>window_results.
        analyze_current_period_probability small_windows three_draws (Some draw_7_to_12) None
          = Inr (Combined window_results)
        \<and> fst ` set window_results = {''medium_term'', ''all_history''}"
    using combined keys' unfolding same by blast
  have c: "analyze_current_period_probability small_windows [draw_1_to_6]
      (Some draw_1_to_6) None = Inr (Empty_result (Some draw_1_to_6))"
    by (rule inst' [THEN conjunct2, THEN conjunct2, THEN conjunct1, THEN mp, OF one])
  show ?thesis
    using a b c by (intro conjI)
qed

subsection \<open>Which draws a window holds\<close>

lemma window_period_data_oldest:
  assumes "name \<noteq> ''all_history''" "0 < n" "n \<le> int (length all_records)"
  shows "window_period_data name (Some n) all_records (int (length all_records))
           = drop (length all_records - nat n) all_records"
  using assms by (simp add: window_period_data_def slice_from_neg min_def)

text \<open>
  Claim C1. The store hands out the draws newest first, and the window slice keeps the end
  of that list: for a window of two draws over a history of three, the analyzer's window
  holds the two oldest draws, while the two most recent draws are the ones the store
  returns for \<^verbatim>\<open>get_recent_records(2)\<close>.
\<close>

theorem window_slice_oldest_draws:
  "get_all_records three_draws None = [draw_7_to_12, draw_4_to_9, draw_1_to_6]
   \<and> window_period_data ''medium_term'' (Some 2) (get_all_records three_draws None) 3
       = [draw_4_to_9, draw_1_to_6]
   \<and> get_recent_records three_draws 2 = [draw_7_to_12, draw_4_to_9]"
proof -
  have "window_period_data ''medium_term'' (Some 2) [draw_7_to_12, draw_4_to_9, draw_1_to_6] 3
      = [draw_4_to_9, draw_1_to_6]"
    by (simp add: window_period_data_def slice_from_def)
  moreover have "get_recent_records three_draws 2 = [draw_7_to_12, draw_4_to_9]"
    by code_simp
  ultimately show ?thesis
    by (simp add: newest_first)
qed

end
